theory Spec2Isabelle
  imports Complex_Main "HOL-Library.Multiset"
begin

section \<open>JavaScript built-ins used by the extension\<close>

text \<open>
  Strings are lists of characters: ASCII text is one \<^typ>\<open>char\<close> per character, and
  the character classes below are the ASCII ones; the one non-ASCII literal of the
  source, in the \<open>platforms\<close> label, is held as its UTF-8 bytes. Numbers
  that hold \<open>Date.now()\<close> readings are integers, connection strengths are real numbers
  (the decimal value of the token the language model printed).
\<close>

definition digit_char :: "nat \<Rightarrow> char" where
  "digit_char d = ''0123456789'' ! d"

fun digits :: "nat \<Rightarrow> string" where
  "digits n = (if n < 10 then [digit_char n] else digits (n div 10) @ [digit_char (n mod 10)])"

declare digits.simps [simp del]

text \<open>String concatenation with a number: \<open>'' + n\<close> for an integral \<open>n\<close>.\<close>

definition numberToString :: "int \<Rightarrow> string" where
  "numberToString i = (if i < 0 then CHR ''-'' # digits (nat (- i)) else digits (nat i))"

text \<open>White space as \<open>\s\<close> and \<open>trim\<close> see it: space, tab, LF, VT, FF, CR.\<close>

definition isWhiteSpace :: "char \<Rightarrow> bool" where
  "isWhiteSpace c = (c = CHR '' '' \<or> c = CHR 0x09 \<or> c = CHR 0x0A \<or> c = CHR 0x0B
     \<or> c = CHR 0x0C \<or> c = CHR 0x0D)"

definition trim :: "string \<Rightarrow> string" where
  "trim s = rev (dropWhile isWhiteSpace (rev (dropWhile isWhiteSpace s)))"

definition lowerChar :: "char \<Rightarrow> char" where
  "lowerChar c =
     (case map_of (zip ''ABCDEFGHIJKLMNOPQRSTUVWXYZ'' ''abcdefghijklmnopqrstuvwxyz'') c of
        Some l \<Rightarrow> l | None \<Rightarrow> c)"

definition toLowerCase :: "string \<Rightarrow> string" where
  "toLowerCase s = map lowerChar s"

fun startsWith :: "string \<Rightarrow> string \<Rightarrow> bool" where
  "startsWith s [] = True"
| "startsWith [] (p # ps) = False"
| "startsWith (c # cs) (p # ps) = (c = p \<and> startsWith cs ps)"

text \<open>\<open>s.includes(p)\<close>: \<open>p\<close> occurs in \<open>s\<close> as a contiguous substring.\<close>

fun string_includes :: "string \<Rightarrow> string \<Rightarrow> bool" where
  "string_includes [] p = (p = [])"
| "string_includes (c # cs) p = (startsWith (c # cs) p \<or> string_includes cs p)"

text \<open>\<open>s.split(sep)\<close> for a one-character separator: never the empty list.\<close>

fun splitOn :: "char \<Rightarrow> string \<Rightarrow> string list" where
  "splitOn sep [] = [[]]"
| "splitOn sep (c # cs) =
     (if c = sep then [] # splitOn sep cs
      else (case splitOn sep cs of [] \<Rightarrow> [[c]] | t # ts \<Rightarrow> (c # t) # ts))"

text \<open>
  \<open>s.split(/\s+/)\<close>: the fields between maximal runs of white space. Leading or
  trailing white space yields an empty first or last field, as in the engine.
  The flag says that the previous character was white space; \<open>acc\<close> is the current
  field, reversed.
\<close>

fun splitFields :: "bool \<Rightarrow> string \<Rightarrow> string \<Rightarrow> string list" where
  "splitFields sp acc [] = [rev acc]"
| "splitFields sp acc (c # cs) =
     (if isWhiteSpace c then
        (if sp then splitFields True acc cs else rev acc # splitFields True [] cs)
      else splitFields False (c # acc) cs)"

definition splitWhitespace :: "string \<Rightarrow> string list" where
  "splitWhitespace s = splitFields False [] s"

text \<open>\<open>s.replace(/\s+/g, ' ')\<close>: every maximal run of white space becomes one space.\<close>

fun collapseWhitespace :: "bool \<Rightarrow> string \<Rightarrow> string" where
  "collapseWhitespace sp [] = []"
| "collapseWhitespace sp (c # cs) =
     (if isWhiteSpace c then
        (if sp then collapseWhitespace True cs else CHR '' '' # collapseWhitespace True cs)
      else c # collapseWhitespace False cs)"

subsection \<open>\<open>Map\<close>: keyed entries in insertion order\<close>

type_synonym ('k, 'v) jsmap = "('k \<times> 'v) list"

definition map_has :: "'k \<Rightarrow> ('k, 'v) jsmap \<Rightarrow> bool" where
  "map_has k m = (k \<in> set (map fst m))"

definition map_get :: "'k \<Rightarrow> ('k, 'v) jsmap \<Rightarrow> 'v option" where
  "map_get k m = map_of m k"

text \<open>\<open>m.set(k, v)\<close>: an existing key keeps its position, a new key goes last.\<close>

definition map_set :: "'k \<Rightarrow> 'v \<Rightarrow> ('k, 'v) jsmap \<Rightarrow> ('k, 'v) jsmap" where
  "map_set k v m =
     (if map_has k m then map (\<lambda>e. if fst e = k then (k, v) else e) m else m @ [(k, v)])"

text \<open>\<open>m.delete(k)\<close>: the map without the key; the call returns \<open>map_has k m\<close>.\<close>

definition map_delete :: "'k \<Rightarrow> ('k, 'v) jsmap \<Rightarrow> ('k, 'v) jsmap" where
  "map_delete k m = filter (\<lambda>e. fst e \<noteq> k) m"

definition map_values :: "('k, 'v) jsmap \<Rightarrow> 'v list" where
  "map_values m = map snd m"

subsection \<open>\<open>Array.prototype.sort\<close> with a comparator\<close>

text \<open>
  The comparator returns a number of which only the sign is used. The sort is stable;
  for a consistent comparator its result is the stable insertion sort below, as the
  stable sorted permutation of a list is unique (\<open>js_sort_unique\<close>).
\<close>

fun insort_cmp :: "('a \<Rightarrow> 'a \<Rightarrow> real) \<Rightarrow> 'a \<Rightarrow> 'a list \<Rightarrow> 'a list" where
  "insort_cmp cmp x [] = [x]"
| "insort_cmp cmp x (y # ys) = (if cmp x y \<le> 0 then x # y # ys else y # insort_cmp cmp x ys)"

definition js_sort :: "('a \<Rightarrow> 'a \<Rightarrow> real) \<Rightarrow> 'a list \<Rightarrow> 'a list" where
  "js_sort cmp xs = foldr (insort_cmp cmp) xs []"

text \<open>\<open>xs.find(p)\<close>: the first element that satisfies \<open>p\<close>, or \<open>undefined\<close>.\<close>

definition array_find :: "('a \<Rightarrow> bool) \<Rightarrow> 'a list \<Rightarrow> 'a option" where
  "array_find p xs = List.find p xs"

section \<open>Data model\<close>

text \<open>The analysis attached to a content item (\<open>analyzeContent\<close>).\<close>

record analysis =
  coreMessage :: string
  perspective :: string
  themes :: "string list"
  emotionalContext :: string
  problems :: "string list"
  solutions :: "string list"
  assumptions :: "string list"
  implications :: "string list"
  contentNature :: string
  summary :: string

text \<open>A content item of the daily store, as the \<open>CONTENT_UPDATE\<close> branch builds it.\<close>

record content_item =
  item_id :: string
  tabId :: int
  url :: string
  title :: string
  content :: string
  domain :: string
  platform :: string
  contentType :: string
  item_timestamp :: int
  analysis :: analysis

text \<open>
  A connection of the daily list. \<open>fromId\<close>, \<open>toId\<close> and \<open>ctype\<close> are the
  properties \<open>from\<close>, \<open>to\<close> and \<open>type\<close> of the object; \<open>pinned\<close> is absent
  (\<open>None\<close>) until a handler writes it.
\<close>

record connection =
  fromId :: string
  toId :: string
  fromTitle :: string
  toTitle :: string
  fromUrl :: string
  toUrl :: string
  strength :: real
  reason :: string
  ctype :: string
  relationship :: string
  timestamp :: int
  platforms :: string
  pinned :: "bool option"

text \<open>
  A ledger entry: the spread of a connection plus the pin stamp. \<open>background.js\<close>
  stamps \<open>pinnedAt\<close> and \<open>pinnedDate\<close>, \<open>storage-manager.js\<close> stamps \<open>pinnedAt\<close>
  and \<open>pinnedVersion\<close>.
\<close>

record pinned_connection =
  conn :: connection
  pinnedAt :: int
  pinnedDate :: "string option"
  pinnedVersion :: "string option"

text \<open>
  An element of the merged view: the spread of a connection or of a ledger entry, with
  the recomputed \<open>id\<close> (\<open>None\<close> is \<open>null\<close>) and the \<open>pinned\<close> flag overwritten.
\<close>

record connection_view =
  vconn :: connection
  cid :: "string option"
  vpinnedAt :: "int option"
  vpinnedDate :: "string option"
  vpinnedVersion :: "string option"

record settings =
  autoResetEnabled :: bool
  resetTime :: string
  maxDailyContent :: int
  maxPinnedConnections :: int
  dataRetentionDays :: int

definition DEFAULT_SETTINGS :: settings where
  "DEFAULT_SETTINGS = \<lparr>autoResetEnabled = True, resetTime = ''midnight'',
     maxDailyContent = 100, maxPinnedConnections = 50, dataRetentionDays = 7\<rparr>"

text \<open>The value stored under \<open>weavesData\<close>.\<close>

record daily_data =
  dd_contentStore :: "(string, content_item) jsmap"
  dd_connections :: "connection list"
  dd_timestamp :: int

text \<open>\<open>chrome.storage.local\<close>: the four keys the manager uses; \<open>None\<close> is absent or \<open>null\<close>.\<close>

record 's local_storage =
  weavesData :: "daily_data option"
  stored_pinnedConnections :: "(string, pinned_connection) jsmap option"
  lastResetDate :: "string option"
  weavesSettings :: "'s option"

text \<open>
  The service worker's state: the \<open>WeavesAI\<close> object, its storage manager, the
  persistent store, and the badge texts set so far (tab, text).
\<close>

record weaves =
  isInitialized :: bool
  contentStore :: "(string, content_item) jsmap"
  connections :: "connection list"
  pinnedConnections :: "(string, pinned_connection) jsmap"
  settings :: settings
  local :: "settings local_storage"
  badge :: "(int option \<times> string) list"

text \<open>
  What one run of a handler reads from outside: the clock (\<open>Date.now()\<close>, one reading
  per program point of the run), the date string (\<open>new Date().toDateString()\<close>),
  whether \<open>chrome.storage.local\<close> answers (a rejected call is caught and logged by
  every caller), and the language model: the analysis that the initialised branch of
  \<open>analyzeContent\<close> ends with, and the reply of \<open>session.prompt\<close> inside
  \<open>findConnections\<close> (\<open>None\<close> when it throws). A handler runs to completion.
\<close>

record env =
  now :: "nat \<Rightarrow> int"
  today :: string
  storage_ok :: bool
  model_analysis :: analysis
  model_reply :: "string option"

section \<open>\<open>WeavesStorageManager\<close> of \<open>background.js\<close>\<close>

text \<open>
  The methods take what they read from outside as arguments: \<open>t\<close> is the reading of
  \<open>Date.now()\<close>, \<open>d\<close> the string of \<open>getCurrentDateString()\<close>, and \<open>ok\<close> says
  whether \<open>chrome.storage.local\<close> answers.
\<close>

definition generateConnectionId :: "connection \<Rightarrow> string" where
  "generateConnectionId connection =
     fromId connection @ ''-'' @ toId connection @ ''-'' @ numberToString (timestamp connection)"

definition savePinnedConnections :: "bool \<Rightarrow> weaves \<Rightarrow> weaves" where
  "savePinnedConnections ok w =
     (if ok then w\<lparr>local := (local w)\<lparr>stored_pinnedConnections := Some (pinnedConnections w)\<rparr>\<rparr>
      else w)"

definition saveData :: "int \<Rightarrow> bool \<Rightarrow> weaves \<Rightarrow> weaves" where
  "saveData t ok w =
     (if ok then
        savePinnedConnections ok
          (w\<lparr>local := (local w)\<lparr>weavesData :=
             Some \<lparr>dd_contentStore = contentStore w, dd_connections = connections w,
                   dd_timestamp = t\<rparr>\<rparr>\<rparr>)
      else w)"

text \<open>
  \<open>pinConnection(connectionId, connection)\<close>: the \<open>throw\<close> on a full ledger is caught
  in the method and becomes the result \<open>false\<close>.
\<close>

definition pinConnection :: "int \<Rightarrow> string \<Rightarrow> bool \<Rightarrow> string \<Rightarrow> connection \<Rightarrow> weaves \<Rightarrow> bool \<times> weaves" where
  "pinConnection t d ok connectionId connection w =
     (if int (length (pinnedConnections w)) \<ge> maxPinnedConnections (settings w) then (False, w)
      else
        let pinnedConnection = \<lparr>conn = connection\<lparr>pinned := Some True\<rparr>, pinnedAt = t,
              pinnedDate = Some d, pinnedVersion = None\<rparr>
        in (True, savePinnedConnections ok
              (w\<lparr>pinnedConnections := map_set connectionId pinnedConnection (pinnedConnections w)\<rparr>)))"

definition unpinConnection :: "bool \<Rightarrow> string \<Rightarrow> weaves \<Rightarrow> bool \<times> weaves" where
  "unpinConnection ok connectionId w =
     (let removed = map_has connectionId (pinnedConnections w);
          w' = w\<lparr>pinnedConnections := map_delete connectionId (pinnedConnections w)\<rparr>
      in if removed then (removed, savePinnedConnections ok w') else (removed, w'))"

definition getPinnedConnections :: "(string, pinned_connection) jsmap \<Rightarrow> connection_view list" where
  "getPinnedConnections m =
     map (\<lambda>c. \<lparr>vconn = (conn c)\<lparr>pinned := Some True\<rparr>, cid = Some (generateConnectionId (conn c)),
                vpinnedAt = Some (pinnedAt c), vpinnedDate = pinnedDate c,
                vpinnedVersion = pinnedVersion c\<rparr>)
       (map_values m)"

text \<open>
  \<open>cleanupPinnedConnections\<close>: over capacity, the entries are sorted by \<open>pinnedAt\<close>
  ascending and the first \<open>length - max\<close> of them are deleted by key.
\<close>

definition cleanupPinnedConnections :: "bool \<Rightarrow> weaves \<Rightarrow> weaves" where
  "cleanupPinnedConnections ok w =
     (if int (length (pinnedConnections w)) > maxPinnedConnections (settings w) then
        let sortedPins = js_sort (\<lambda>a b. of_int (pinnedAt (snd a) - pinnedAt (snd b))) (pinnedConnections w);
            toRemove = take (nat (int (length sortedPins) - maxPinnedConnections (settings w))) sortedPins
        in savePinnedConnections ok
             (w\<lparr>pinnedConnections := foldl (\<lambda>m e. map_delete (fst e) m) (pinnedConnections w) toRemove\<rparr>)
      else w)"



section \<open>\<open>WeavesStorageManager\<close> of \<open>storage-manager.js\<close>\<close>

record sm_settings =
  dailyResetEnabled :: bool
  sm_resetTime :: string
  maxStorageSize :: int
  retentionDays :: int

definition sm_DEFAULT_SETTINGS :: sm_settings where
  "sm_DEFAULT_SETTINGS = \<lparr>dailyResetEnabled = True, sm_resetTime = ''00:00'',
     maxStorageSize = 50, retentionDays = 7\<rparr>"

text \<open>
  The manager once \<open>loadStoredData\<close> has run: the constructor leaves \<open>settings\<close>
  unset, and \<open>initialize\<close> calls \<open>loadStoredData\<close>, which sets them, before any
  other method.
\<close>

record storage_manager =
  sm_pinnedConnections :: "(string, pinned_connection) jsmap"
  sm_settings :: sm_settings
  sm_local :: "sm_settings local_storage"

text \<open>\<open>generateConnectionId\<close> here answers \<open>null\<close> when a property is falsy.\<close>

definition sm_generateConnectionId :: "connection \<Rightarrow> string option" where
  "sm_generateConnectionId connection =
     (if fromId connection = [] \<or> toId connection = [] \<or> timestamp connection = 0 then None
      else Some (fromId connection @ ''-'' @ toId connection @ ''-''
                 @ numberToString (timestamp connection)))"

definition sm_savePinnedConnections :: "bool \<Rightarrow> storage_manager \<Rightarrow> storage_manager" where
  "sm_savePinnedConnections ok m =
     (if ok then m\<lparr>sm_local := (sm_local m)\<lparr>stored_pinnedConnections := Some (sm_pinnedConnections m)\<rparr>\<rparr>
      else m)"

text \<open>\<open>pinConnection(connection)\<close>: no capacity is configured in this class.\<close>

definition sm_pinConnection :: "int \<Rightarrow> bool \<Rightarrow> connection \<Rightarrow> storage_manager \<Rightarrow> bool \<times> storage_manager" where
  "sm_pinConnection t ok connection m =
     (case sm_generateConnectionId connection of
        Some connectionId \<Rightarrow>
          (True, sm_savePinnedConnections ok
             (m\<lparr>sm_pinnedConnections :=
                 map_set connectionId
                   \<lparr>conn = connection\<lparr>pinned := Some True\<rparr>, pinnedAt = t, pinnedDate = None,
                    pinnedVersion = Some ''1.0''\<rparr>
                   (sm_pinnedConnections m)\<rparr>))
      | None \<Rightarrow> (False, m))"

text \<open>
  \<open>cleanupPinnedConnections\<close>: the loop over the entries deletes by key every entry
  pinned before the cutoff and counts it; the ledger is saved when the count is positive.
\<close>

definition sm_cleanupPinnedConnections :: "int \<Rightarrow> bool \<Rightarrow> storage_manager \<Rightarrow> storage_manager" where
  "sm_cleanupPinnedConnections t ok m =
     (let retentionMs = retentionDays (sm_settings m) * 24 * 60 * 60 * 1000;
          cutoffTime = t - retentionMs;
          (pins, cleanedCount) =
            foldl (\<lambda>(pins, n) e. if pinnedAt (snd e) < cutoffTime then (map_delete (fst e) pins, n + 1)
                                  else (pins, n))
              (sm_pinnedConnections m, 0::nat) (sm_pinnedConnections m);
          m' = m\<lparr>sm_pinnedConnections := pins\<rparr>
      in if cleanedCount > 0 then sm_savePinnedConnections ok m' else m')"



definition sm_getPinnedConnections :: "(string, pinned_connection) jsmap \<Rightarrow> connection_view list" where
  "sm_getPinnedConnections m =
     map (\<lambda>c. \<lparr>vconn = (conn c)\<lparr>pinned := Some True\<rparr>, cid = sm_generateConnectionId (conn c),
                vpinnedAt = Some (pinnedAt c), vpinnedDate = pinnedDate c,
                vpinnedVersion = pinnedVersion c\<rparr>)
       (map_values m)"

section \<open>The merged view\<close>

text \<open>JavaScript truthiness of the \<open>pinned\<close> property.\<close>

definition truthy :: "bool option \<Rightarrow> bool" where
  "truthy p = (p = Some True)"

text \<open>The comparator both \<open>getAllConnections\<close> methods pass to \<open>sort\<close>.\<close>

definition compareConnections :: "connection_view \<Rightarrow> connection_view \<Rightarrow> real" where
  "compareConnections a b =
     (if truthy (pinned (vconn a)) \<and> \<not> truthy (pinned (vconn b)) then - 1
      else if \<not> truthy (pinned (vconn a)) \<and> truthy (pinned (vconn b)) then 1
      else if strength (vconn a) \<noteq> strength (vconn b) then strength (vconn b) - strength (vconn a)
      else of_int (timestamp (vconn b) - timestamp (vconn a)))"

text \<open>The merge both methods perform on the two views before sorting.\<close>

definition mergeViews :: "connection_view list \<Rightarrow> connection_view list \<Rightarrow> connection_view list" where
  "mergeViews pinnedViews regularViews =
     pinnedViews @ filter (\<lambda>regular. array_find (\<lambda>p. cid p = cid regular) pinnedViews = None) regularViews"

text \<open>
  \<open>WeavesAI.getAllConnections\<close> (\<open>background.js\<close>); \<open>regularView\<close> is the object its
  first \<open>map\<close> builds from a connection of the daily list.
\<close>

definition regularView :: "connection \<Rightarrow> connection_view" where
  "regularView c =
     \<lparr>vconn = c\<lparr>pinned := Some False\<rparr>, cid = Some (generateConnectionId c),
      vpinnedAt = None, vpinnedDate = None, vpinnedVersion = None\<rparr>"

definition getAllConnections :: "weaves \<Rightarrow> connection_view list" where
  "getAllConnections w =
     (let regularConnections = map regularView (connections w);
          pinnedConnections = getPinnedConnections (pinnedConnections w)
      in js_sort compareConnections (mergeViews pinnedConnections regularConnections))"

text \<open>\<open>WeavesStorageManager.getAllConnections(regularConnections)\<close> (\<open>storage-manager.js\<close>).\<close>

definition sm_regularView :: "connection \<Rightarrow> connection_view" where
  "sm_regularView c =
     \<lparr>vconn = c\<lparr>pinned := Some False\<rparr>, cid = sm_generateConnectionId c,
      vpinnedAt = None, vpinnedDate = None, vpinnedVersion = None\<rparr>"

definition sm_getAllConnections :: "storage_manager \<Rightarrow> connection list \<Rightarrow> connection_view list" where
  "sm_getAllConnections m regularConnections =
     (let regular = map sm_regularView regularConnections;
          pinned = sm_getPinnedConnections (sm_pinnedConnections m)
      in js_sort compareConnections (mergeViews pinned regular))"

section \<open>\<open>WeavesAI\<close>: analysis and connection finding\<close>

text \<open>
  \<open>parseInt\<close> without a radix: leading white space, a sign, an optional \<open>0x\<close> prefix,
  then the longest run of digits; \<open>None\<close> is \<open>NaN\<close>.
\<close>

definition digitValue :: "char \<Rightarrow> nat option" where
  "digitValue c =
     map_of [(CHR ''0'', 0), (CHR ''1'', 1), (CHR ''2'', 2), (CHR ''3'', 3), (CHR ''4'', 4),
             (CHR ''5'', 5), (CHR ''6'', 6), (CHR ''7'', 7), (CHR ''8'', 8), (CHR ''9'', 9),
             (CHR ''a'', 10), (CHR ''b'', 11), (CHR ''c'', 12), (CHR ''d'', 13), (CHR ''e'', 14),
             (CHR ''f'', 15)] (lowerChar c)"

definition isDigitOf :: "nat \<Rightarrow> char \<Rightarrow> bool" where
  "isDigitOf radix c = (case digitValue c of Some v \<Rightarrow> v < radix | None \<Rightarrow> False)"

definition digitsValue :: "nat \<Rightarrow> string \<Rightarrow> nat" where
  "digitsValue radix ds = foldl (\<lambda>acc c. acc * radix + (case digitValue c of Some v \<Rightarrow> v | None \<Rightarrow> 0)) 0 ds"

definition hasSign :: "string \<Rightarrow> bool" where
  "hasSign s = (startsWith s ''-'' \<or> startsWith s ''+'')"

definition parseInt :: "string \<Rightarrow> int option" where
  "parseInt s =
     (let s1 = dropWhile isWhiteSpace s;
          s2 = (if hasSign s1 then drop 1 s1 else s1);
          hex = (startsWith s2 ''0x'' \<or> startsWith s2 ''0X'');
          radix = (if hex then 16 else 10);
          ds = takeWhile (isDigitOf radix) (if hex then drop 2 s2 else s2)
      in if ds = [] then None
         else Some ((if startsWith s1 ''-'' then - 1 else 1) * int (digitsValue radix ds)))"

text \<open>
  \<open>parseFloat\<close>: leading white space, a sign, then \<open>Infinity\<close> or the longest decimal
  literal (digits, fraction, exponent). The value is the decimal value of the literal.
\<close>

datatype number = NaN | Num real | PosInfinity | NegInfinity

definition exponentFactor :: "string \<Rightarrow> real" where
  "exponentFactor r =
     (if startsWith r ''e'' \<or> startsWith r ''E'' then
        let r1 = drop 1 r;
            ed = takeWhile (isDigitOf 10) (if hasSign r1 then drop 1 r1 else r1)
        in if ed = [] then 1
           else if startsWith r1 ''-'' then 1 / 10 ^ digitsValue 10 ed
           else 10 ^ digitsValue 10 ed
      else 1)"

definition parseFloat :: "string \<Rightarrow> number" where
  "parseFloat s =
     (let s1 = dropWhile isWhiteSpace s;
          s2 = (if hasSign s1 then drop 1 s1 else s1);
          sgn = (if startsWith s1 ''-'' then - 1 else 1)
      in if startsWith s2 ''Infinity'' then (if startsWith s1 ''-'' then NegInfinity else PosInfinity)
         else
           let ip = takeWhile (isDigitOf 10) s2;
               r1 = dropWhile (isDigitOf 10) s2;
               fp = (if startsWith r1 ''.'' then takeWhile (isDigitOf 10) (drop 1 r1) else []);
               r2 = (if startsWith r1 ''.'' then dropWhile (isDigitOf 10) (drop 1 r1) else r1)
           in if ip = [] \<and> fp = [] then NaN
              else Num (sgn * (real (digitsValue 10 ip) + real (digitsValue 10 fp) / 10 ^ length fp)
                        * exponentFactor r2))"

definition analyzeContent :: "env \<Rightarrow> bool \<Rightarrow> string \<Rightarrow> analysis" where
  "analyzeContent e initialized text =
     (if \<not> initialized then
        \<lparr>coreMessage = ''Content requires AI analysis'', perspective = ''unknown'', themes = [],
         emotionalContext = ''neutral'', problems = [], solutions = [], assumptions = [],
         implications = [], contentNature = ''unanalyzed'', summary = take 300 text @ ''...''\<rparr>
      else model_analysis e)"

text \<open>An accepted candidate, as \<open>findConnections\<close> pushes it.\<close>

record candidate =
  contentId :: string
  cand_strength :: real
  cand_reason :: string
  cand_type :: string
  cand_relationship :: string

text \<open>
  The body of the loop over the reply's lines: \<open>Some\<close> is a push. The line starts with
  \<open>CONNECT:\<close> when the prefix is replaced, so \<open>replace\<close> removes that prefix. The
  validation is a conjunction of comparisons: it is false when the index is \<open>NaN\<close> and
  when the strength is \<open>NaN\<close> or infinite.
\<close>

definition connectLine :: "content_item list \<Rightarrow> string \<Rightarrow> candidate option" where
  "connectLine existingAnalyses line =
     (if startsWith line ''CONNECT:'' then
        let parts = map trim (splitOn (CHR ''|'') (drop (length ''CONNECT:'') line))
        in if length parts \<ge> 3 then
             let index = parseInt (parts ! 0);
                 strength = parseFloat (parts ! 1);
                 reason = parts ! 2
             in (case (index, strength) of
                   (Some i, Num x) \<Rightarrow>
                     if i \<ge> 0 \<and> i < int (length existingAnalyses)
                        \<and> x \<ge> 0.7 \<and> x \<le> 1.0
                        \<and> length reason > 50
                        \<and> \<not> string_includes (toLowerCase reason) ''both mention''
                        \<and> \<not> string_includes (toLowerCase reason) ''both discuss''
                        \<and> \<not> string_includes (toLowerCase reason) ''both are about''
                     then Some \<lparr>contentId = item_id (existingAnalyses ! nat i), cand_strength = x,
                                cand_reason = reason, cand_type = ''academic-insight'',
                                cand_relationship = ''provides-framework''\<rparr>
                     else None
                 | _ \<Rightarrow> None)
           else None
      else None)"

text \<open>
  \<open>findConnections(newContent, existingContents)\<close>. The new item and the first four
  existing items go into the prompt; the reply comes from the environment.
\<close>

definition findConnections :: "env \<Rightarrow> bool \<Rightarrow> content_item \<Rightarrow> content_item list \<Rightarrow> candidate list" where
  "findConnections e initialized newContent existingContents =
     (if \<not> initialized then []
      else
        (case model_reply e of
           None \<Rightarrow> []
         | Some result \<Rightarrow>
             if trim result = ''NO_CONNECTIONS'' then []
             else
               let existingAnalyses = take 4 existingContents;
                   lines = splitOn (CHR 0x0A) result
               in List.map_filter (connectLine existingAnalyses) lines))"

definition WeavesAI_pinConnection :: "int \<Rightarrow> string \<Rightarrow> bool \<Rightarrow> string \<Rightarrow> weaves \<Rightarrow> bool \<times> weaves" where
  "WeavesAI_pinConnection t d ok connectionId w =
     (case array_find (\<lambda>c. generateConnectionId c = connectionId) (connections w) of
        Some connection \<Rightarrow> pinConnection t d ok connectionId connection w
      | None \<Rightarrow> (False, w))"

section \<open>The message listener of the service worker\<close>

record tab =
  tab_id :: int
  tab_url :: string

record content_update =
  m_title :: string
  m_content :: string
  m_url :: string
  m_domain :: string
  m_platform :: string
  m_contentType :: string

datatype message =
    CONTENT_UPDATE content_update
  | GET_CONNECTIONS
  | PIN_CONNECTION string
  | UNPIN_CONNECTION string
  | GET_STORAGE_STATS
  | DELETE_CONNECTION string
  | CLEAR_DATA

datatype failure = TypeError | ErrorMessage string

text \<open>
  What \<open>sendResponse\<close> is called with: \<open>{success: true, connections, highQuality}\<close>,
  \<open>{success: false, error}\<close>, \<open>{content, connections}\<close>, \<open>{success}\<close>, and
  \<open>{stats}\<close>, where \<open>stats\<close> is \<open>null\<close> or holds the pinned count, the last reset date
  and the settings (the byte count of the store is left out).
\<close>

datatype response =
    Ingested nat nat
  | Failed failure
  | Listing "content_item list" "connection_view list"
  | Outcome bool
  | Stats "(nat \<times> string option \<times> settings) option"

text \<open>
  What the template literal of the \<open>platforms\<close> label holds between the two titles:
  a space, the three characters of the source file (U+00E2, U+2020, U+2019) as their
  UTF-8 bytes, and a space.
\<close>

definition arrow :: string where
  "arrow = [CHR '' '', CHR 0xC3, CHR 0xA2, CHR 0xE2, CHR 0x80, CHR 0xA0, CHR 0xE2, CHR 0x80,
            CHR 0x99, CHR '' '']"

text \<open>The object pushed for the \<open>k\<close>-th candidate of an ingestion.\<close>

definition newConnection :: "env \<Rightarrow> (string, content_item) jsmap \<Rightarrow> content_item \<Rightarrow> nat \<Rightarrow> candidate \<Rightarrow> connection" where
  "newConnection e store item k c =
     (let targetContent = map_get (contentId c) store;
          targetTitle = (case targetContent of
                           Some t \<Rightarrow> if title t = [] then ''Unknown'' else title t
                         | None \<Rightarrow> ''Unknown'')
      in \<lparr>fromId = item_id item, toId = contentId c, fromTitle = title item, toTitle = targetTitle,
          fromUrl = url item,
          toUrl = (case targetContent of Some t \<Rightarrow> url t | None \<Rightarrow> []),
          strength = cand_strength c, reason = cand_reason c, ctype = cand_type c,
          relationship = cand_relationship c, timestamp = now e (2 + k),
          platforms = title item @ arrow @ targetTitle, pinned = None\<rparr>)"

text \<open>
  The \<open>CONTENT_UPDATE\<close> branch; \<open>contentItem\<close> is its object \<open>content\<close> and
  \<open>existingContents\<close> its comparison set. A sender without a tab makes
  \<open>sender.tab.id\<close> throw; the branch catches it and answers \<open>{success: false, error}\<close>.
\<close>

definition contentItem :: "env \<Rightarrow> tab \<Rightarrow> content_update \<Rightarrow> bool \<Rightarrow> content_item" where
  "contentItem e t m initialized =
     \<lparr>item_id = numberToString (tab_id t) @ ''-'' @ numberToString (now e 0),
      tabId = tab_id t, url = tab_url t, title = m_title m, content = m_content m,
      domain = m_domain m, platform = m_platform m, contentType = m_contentType m,
      item_timestamp = now e 1,
      analysis = analyzeContent e initialized (m_content m)\<rparr>"

definition existingContents :: "content_item \<Rightarrow> (string, content_item) jsmap \<Rightarrow> content_item list" where
  "existingContents item store =
     take 12 (js_sort (\<lambda>a b. of_int (item_timestamp b - item_timestamp a))
                (filter (\<lambda>c. item_id c \<noteq> item_id item) (map_values store)))"

definition contentUpdate :: "env \<Rightarrow> tab option \<Rightarrow> content_update \<Rightarrow> weaves \<Rightarrow> response \<times> weaves" where
  "contentUpdate e sender m w =
     (case sender of
        None \<Rightarrow> (Failed TypeError, w)
      | Some t \<Rightarrow>
          let item = contentItem e t m (isInitialized w);
              w1 = w\<lparr>contentStore := map_set (item_id item) item (contentStore w)\<rparr>;
              found = findConnections e (isInitialized w1) item
                        (existingContents item (contentStore w1));
              w2 = w1\<lparr>connections := connections w1
                         @ map (\<lambda>(k, c). newConnection e (contentStore w1) item k c) (enumerate 0 found)\<rparr>;
              w3 = saveData (now e (2 + length found)) (storage_ok e) w2;
              highQualityConnections = filter (\<lambda>c. cand_strength c \<ge> 0.75) found;
              w4 = (if length highQualityConnections > 0
                    then w3\<lparr>badge := badge w3
                           @ [(Some (tab_id t), numberToString (int (length highQualityConnections)))]\<rparr>
                    else w3)
          in (Ingested (length found) (length highQualityConnections), w4))"

definition getConnections :: "weaves \<Rightarrow> response" where
  "getConnections w =
     (let recentContent =
            take 25 (js_sort (\<lambda>a b. of_int (item_timestamp b - item_timestamp a))
                       (map_values (contentStore w)));
          allConnections = take 50 (getAllConnections w)
      in Listing recentContent allConnections)"

text \<open>The first \<open>PIN_CONNECTION\<close> and \<open>UNPIN_CONNECTION\<close> branches.\<close>

definition pinFirst :: "env \<Rightarrow> string \<Rightarrow> weaves \<Rightarrow> response \<times> weaves" where
  "pinFirst e connectionId w =
     (let (success, w') = WeavesAI_pinConnection (now e 0) (today e) (storage_ok e) connectionId w
      in (Outcome success, w'))"

definition unpinFirst :: "env \<Rightarrow> string \<Rightarrow> weaves \<Rightarrow> response \<times> weaves" where
  "unpinFirst e connectionId w =
     (let (success, w') = unpinConnection (storage_ok e) connectionId w
      in (Outcome success, w'))"

definition getStorageStats :: "env \<Rightarrow> weaves \<Rightarrow> response" where
  "getStorageStats e w =
     (if storage_ok e
      then Stats (Some (length (pinnedConnections w), lastResetDate (local w), settings w))
      else Stats None)"

text \<open>The first \<open>DELETE_CONNECTION\<close> branch.\<close>

definition deleteFirst :: "env \<Rightarrow> string \<Rightarrow> weaves \<Rightarrow> response \<times> weaves" where
  "deleteFirst e connectionId w =
     (let w1 = w\<lparr>connections := filter (\<lambda>c. generateConnectionId c \<noteq> connectionId) (connections w)\<rparr>;
          (removed, w2) = unpinConnection (storage_ok e) connectionId w1;
          w3 = saveData (now e 0) (storage_ok e) w2
      in (Outcome True, w3))"

definition clearData :: "env \<Rightarrow> weaves \<Rightarrow> response \<times> weaves" where
  "clearData e w =
     (let w1 = w\<lparr>contentStore := [], connections := []\<rparr>;
          w2 = w1\<lparr>badge := badge w1 @ [(None, [])]\<rparr>;
          w3 = saveData (now e 0) (storage_ok e) w2
      in (Outcome True, w3))"

text \<open>Assignment to a property of the object that \<open>find\<close> returned: the first match.\<close>

fun update_first :: "('a \<Rightarrow> bool) \<Rightarrow> ('a \<Rightarrow> 'a) \<Rightarrow> 'a list \<Rightarrow> 'a list" where
  "update_first p f [] = []"
| "update_first p f (x # xs) = (if p x then f x # xs else x # update_first p f xs)"

text \<open>The second \<open>PIN_CONNECTION\<close>, \<open>UNPIN_CONNECTION\<close> and \<open>DELETE_CONNECTION\<close> branches.\<close>

definition pinSecond :: "env \<Rightarrow> string \<Rightarrow> weaves \<Rightarrow> response \<times> weaves" where
  "pinSecond e connectionId w =
     (case array_find (\<lambda>c. generateConnectionId c = connectionId) (connections w) of
        Some connection \<Rightarrow>
          let w1 = w\<lparr>connections := update_first (\<lambda>c. generateConnectionId c = connectionId)
                                      (\<lambda>c. c\<lparr>pinned := Some True\<rparr>) (connections w)\<rparr>;
              (success, w2) = pinConnection (now e 1) (today e) (storage_ok e) connectionId
                                (connection\<lparr>pinned := Some True\<rparr>) w1;
              w3 = saveData (now e 2) (storage_ok e) w2
          in (Outcome True, w3)
      | None \<Rightarrow> (Failed (ErrorMessage ''Connection not found''), w))"

definition unpinSecond :: "env \<Rightarrow> string \<Rightarrow> weaves \<Rightarrow> response \<times> weaves" where
  "unpinSecond e connectionId w =
     (let w1 = w\<lparr>connections := update_first (\<lambda>c. generateConnectionId c = connectionId)
                                 (\<lambda>c. c\<lparr>pinned := Some False\<rparr>) (connections w)\<rparr>;
          (success, w2) = unpinConnection (storage_ok e) connectionId w1;
          w3 = saveData (now e 1) (storage_ok e) w2
      in (Outcome True, w3))"

definition deleteSecond :: "env \<Rightarrow> string \<Rightarrow> weaves \<Rightarrow> response \<times> weaves" where
  "deleteSecond e connectionId w =
     (let initialLength = length (connections w);
          w1 = w\<lparr>connections := filter (\<lambda>c. generateConnectionId c \<noteq> connectionId) (connections w)\<rparr>;
          wasDeleted = (length (connections w1) < initialLength);
          (removed, w2) = unpinConnection (storage_ok e) connectionId w1;
          w3 = saveData (now e 1) (storage_ok e) w2
      in (Outcome wasDeleted, w3))"

text \<open>
  The listener: every branch whose type test matches runs, in the order of the source;
  the result lists the \<open>sendResponse\<close> calls in the order they are made.
\<close>

definition onMessage :: "env \<Rightarrow> tab option \<Rightarrow> message \<Rightarrow> weaves \<Rightarrow> response list \<times> weaves" where
  "onMessage e sender message w =
     (case message of
        CONTENT_UPDATE m \<Rightarrow> (let (r, w1) = contentUpdate e sender m w in ([r], w1))
      | GET_CONNECTIONS \<Rightarrow> ([getConnections w], w)
      | PIN_CONNECTION connectionId \<Rightarrow>
          (let (r1, w1) = pinFirst e connectionId w;
               (r2, w2) = pinSecond e connectionId w1
           in ([r1, r2], w2))
      | UNPIN_CONNECTION connectionId \<Rightarrow>
          (let (r1, w1) = unpinFirst e connectionId w;
               (r2, w2) = unpinSecond e connectionId w1
           in ([r1, r2], w2))
      | GET_STORAGE_STATS \<Rightarrow> ([getStorageStats e w], w)
      | DELETE_CONNECTION connectionId \<Rightarrow>
          (let (r1, w1) = deleteFirst e connectionId w;
               (r2, w2) = deleteSecond e connectionId w1
           in ([r1, r2], w2))
      | CLEAR_DATA \<Rightarrow> (let (r, w1) = clearData e w in ([r], w1)))"

section \<open>The content script\<close>

text \<open>
  What the DOM walk of \<open>extractContent\<close> gathers before the text is cleaned and cut.
\<close>

record page =
  p_title :: string
  p_text :: string
  p_url :: string
  p_domain :: string
  p_contentType :: string
  p_platform :: string

definition extractContent :: "page \<Rightarrow> content_update" where
  "extractContent p =
     \<lparr>m_title = take 200 (p_title p),
      m_content = take 8000 (trim (collapseWhitespace False (p_text p))),
      m_url = p_url p, m_domain = p_domain p, m_platform = p_platform p,
      m_contentType = p_contentType p\<rparr>"

definition contentSimilarity :: "string \<Rightarrow> string \<Rightarrow> real" where
  "contentSimilarity str1 str2 =
     (if str1 = [] \<or> str2 = [] then 0
      else
        let set1 = set (splitWhitespace (toLowerCase str1));
            set2 = set (splitWhitespace (toLowerCase str2));
            intersection = Set.filter (\<lambda>x. x \<in> set2) set1;
            union = set1 \<union> set2
        in real (card intersection) / real (card union))"

text \<open>
  \<open>extractAndSend\<close>: the new \<open>lastContent\<close> and the message sent, if any.
\<close>

definition extractAndSend :: "string \<Rightarrow> page \<Rightarrow> string \<times> content_update option" where
  "extractAndSend lastContent p =
     (let extracted = extractContent p
      in if length (m_content extracted) < 100 then (lastContent, None)
         else if contentSimilarity (m_content extracted) lastContent < 0.8
           then (m_content extracted, Some extracted)
           else (lastContent, None))"

text \<open>
  One extraction on a page of tab \<open>t\<close>: the content script runs, and a message it sends
  is handled by the service worker's listener.
\<close>

definition extraction :: "env \<Rightarrow> tab \<Rightarrow> page \<Rightarrow> string \<times> weaves \<Rightarrow> string \<times> weaves" where
  "extraction e t p s =
     (case extractAndSend (fst s) p of
        (lastContent, None) \<Rightarrow> (lastContent, snd s)
      | (lastContent, Some m) \<Rightarrow> (lastContent, snd (onMessage e (Some t) (CONTENT_UPDATE m) (snd s))))"

text \<open>The similarity as the specification words it: the Jaccard index of the token sets.\<close>

definition jaccard_spec :: "string \<Rightarrow> string \<Rightarrow> real" where
  "jaccard_spec a b =
     real (card (set (splitWhitespace (toLowerCase a)) \<inter> set (splitWhitespace (toLowerCase b))))
     / real (card (set (splitWhitespace (toLowerCase a)) \<union> set (splitWhitespace (toLowerCase b))))"

section \<open>Predicates of the properties\<close>

text \<open>
  A comparator is consistent when \<open>cmp a b \<le> 0\<close> is a total preorder; the result of
  \<open>sort\<close> is determined only then.
\<close>

definition consistent :: "('a \<Rightarrow> 'a \<Rightarrow> real) \<Rightarrow> bool" where
  "consistent cmp =
     ((\<forall>x y. cmp x y \<le> 0 \<or> cmp y x \<le> 0)
      \<and> (\<forall>x y z. cmp x y \<le> 0 \<longrightarrow> cmp y z \<le> 0 \<longrightarrow> cmp x z \<le> 0))"

text \<open>
  The ranking of the merged view: pinned before unpinned, then the greater strength,
  then the later timestamp.
\<close>

definition ranks_before :: "connection_view \<Rightarrow> connection_view \<Rightarrow> bool" where
  "ranks_before a b =
     ((truthy (pinned (vconn a)) \<and> \<not> truthy (pinned (vconn b)))
      \<or> (truthy (pinned (vconn a)) = truthy (pinned (vconn b))
          \<and> (strength (vconn a) > strength (vconn b)
              \<or> (strength (vconn a) = strength (vconn b)
                  \<and> timestamp (vconn a) \<ge> timestamp (vconn b)))))"

text \<open>Two elements the ranking does not separate.\<close>

definition tied :: "connection_view \<Rightarrow> connection_view \<Rightarrow> bool" where
  "tied a b =
     (truthy (pinned (vconn a)) = truthy (pinned (vconn b))
      \<and> strength (vconn a) = strength (vconn b) \<and> timestamp (vconn a) = timestamp (vconn b))"

section \<open>Sample states\<close>

text \<open>
  The state the constructors of \<open>WeavesAI\<close> and of its storage manager
  (\<open>background.js\<close>) start from, and the manager of \<open>storage-manager.js\<close> after
  \<open>loadStoredData\<close> on an empty store (an empty ledger and the default settings).
\<close>

definition new_WeavesAI :: weaves where
  "new_WeavesAI =
     \<lparr>isInitialized = False, contentStore = [], connections = [], pinnedConnections = [],
      settings = DEFAULT_SETTINGS,
      local = \<lparr>weavesData = None, stored_pinnedConnections = None, lastResetDate = None,
               weavesSettings = None\<rparr>,
      badge = []\<rparr>"

definition loaded_StorageManager :: storage_manager where
  "loaded_StorageManager =
     \<lparr>sm_pinnedConnections = [], sm_settings = sm_DEFAULT_SETTINGS,
      sm_local = \<lparr>weavesData = None, stored_pinnedConnections = None, lastResetDate = None,
                  weavesSettings = None\<rparr>\<rparr>"

definition sample_analysis :: analysis where
  "sample_analysis =
     \<lparr>coreMessage = ''Tides'', perspective = ''analyzed'', themes = [], emotionalContext = ''neutral'',
      problems = [], solutions = [], assumptions = [], implications = [],
      contentNature = ''general'', summary = ''Tides...''\<rparr>"

definition sample_env :: env where
  "sample_env =
     \<lparr>now = (\<lambda>i. 1000 + int i), today = ''Mon Jan 01 2024'', storage_ok = True,
      model_analysis = sample_analysis, model_reply = None\<rparr>"

text \<open>Two connections of a daily list: strengths 0.8 and 0.9.\<close>

definition sample_connection :: connection where
  "sample_connection =
     \<lparr>fromId = ''1-5'', toId = ''2-3'', fromTitle = ''A'', toTitle = ''B'', fromUrl = ''u'',
      toUrl = ''v'', strength = 0.8, reason = ''r'', ctype = ''academic-insight'',
      relationship = ''provides-framework'', timestamp = 7, platforms = ''A B'', pinned = None\<rparr>"

definition sample_connection2 :: connection where
  "sample_connection2 = sample_connection\<lparr>fromId := ''4-6'', strength := 0.9, timestamp := 9\<rparr>"

text \<open>A state with two connections of which the first is pinned.\<close>

definition sample_weaves :: weaves where
  "sample_weaves =
     new_WeavesAI\<lparr>connections := [sample_connection, sample_connection2],
       pinnedConnections := [(''1-5-2-3-7'',
          \<lparr>conn = sample_connection\<lparr>pinned := Some True\<rparr>, pinnedAt = 20,
           pinnedDate = Some ''Mon Jan 01 2024'', pinnedVersion = None\<rparr>)]\<rparr>"

text \<open>A ledger entry for the first sample connection, pinned at time \<open>t\<close>.\<close>

definition sample_pin :: "int \<Rightarrow> pinned_connection" where
  "sample_pin t =
     \<lparr>conn = sample_connection\<lparr>pinned := Some True\<rparr>, pinnedAt = t,
      pinnedDate = Some ''Mon Jan 01 2024'', pinnedVersion = None\<rparr>"

text \<open>Fifty ledger entries under the keys \<open>k\<close>, \<open>kk\<close>, \<open>kkk\<close>, ...\<close>

definition fifty_pins :: "(string, pinned_connection) jsmap" where
  "fifty_pins = map (\<lambda>i. (replicate (Suc i) (CHR ''k''), sample_pin (int i))) [0..<50]"

definition sample_full :: weaves where
  "sample_full = new_WeavesAI\<lparr>pinnedConnections := fifty_pins\<rparr>"

definition sample_full_manager :: storage_manager where
  "sample_full_manager = loaded_StorageManager\<lparr>sm_pinnedConnections := fifty_pins\<rparr>"

text \<open>Three ledger entries where the configured maximum is one.\<close>

definition sample_crowded :: weaves where
  "sample_crowded =
     new_WeavesAI\<lparr>pinnedConnections := [(''a'', sample_pin 30), (''b'', sample_pin 10), (''c'', sample_pin 20)],
       settings := DEFAULT_SETTINGS\<lparr>maxPinnedConnections := 1\<rparr>\<rparr>"

text \<open>A manager of \<open>storage-manager.js\<close> with an entry pinned long ago and a fresh one.\<close>

definition sample_manager :: storage_manager where
  "sample_manager =
     loaded_StorageManager\<lparr>sm_pinnedConnections := [(''a'', sample_pin 5), (''b'', sample_pin 700000000)]\<rparr>"

text \<open>A \<open>CONTENT_UPDATE\<close> payload.\<close>

definition sample_update :: content_update where
  "sample_update =
     \<lparr>m_title = ''Tides'', m_content = ''The moon pulls the sea.'', m_url = ''u'',
      m_domain = ''d'', m_platform = ''Web'', m_contentType = ''general''\<rparr>"

text \<open>
  A reply line that passes the validation, and one with the same strength whose reason
  holds a shallow phrase in capitals.
\<close>

definition sample_reason :: string where
  "sample_reason = ''Tidal forcing models explain the periodic load on the estuary sensors''"

definition sample_line :: string where
  "sample_line = ''CONNECT: 0 | 0.9 | '' @ sample_reason"

definition shallow_reason :: string where
  "shallow_reason = ''Both Discuss the sea and '' @ sample_reason"

definition shallow_line :: string where
  "shallow_line = ''CONNECT: 0 | 0.9 | '' @ shallow_reason"

text \<open>An environment whose language model replies with the valid line three times.\<close>

definition three_lines_env :: env where
  "three_lines_env =
     sample_env\<lparr>model_reply := Some (sample_line @ [CHR 0x0A] @ sample_line @ [CHR 0x0A] @ sample_line)\<rparr>"

text \<open>
  An environment whose language model replies with the valid line, the shallow line and
  the valid line again.
\<close>

definition mixed_lines_env :: env where
  "mixed_lines_env =
     sample_env\<lparr>model_reply := Some (sample_line @ [CHR 0x0A] @ shallow_line @ [CHR 0x0A] @ sample_line)\<rparr>"

text \<open>An initialised worker that has one item in its content store.\<close>

definition sample_item :: content_item where
  "sample_item =
     \<lparr>item_id = ''2-3'', tabId = 2, url = ''v'', title = ''Estuary'', content = ''Sensors in the estuary.'',
      domain = ''d'', platform = ''Web'', contentType = ''general'', item_timestamp = 3,
      analysis = sample_analysis\<rparr>"

definition sample_initialized :: weaves where
  "sample_initialized = new_WeavesAI\<lparr>isInitialized := True, contentStore := [(''2-3'', sample_item)]\<rparr>"

definition sample_tab :: tab where
  "sample_tab = \<lparr>tab_id = 3, tab_url = ''u''\<rparr>"

text \<open>
  A page whose cleaned text has 135 characters, and a last-sent content that differs
  from it in one word.
\<close>

definition sample_page :: page where
  "sample_page =
     \<lparr>p_title = ''Tides'',
      p_text = ''  Spring tides rise when sun and moon pull along one line while neap tides follow seven days later as that pull is split across two lines '',
      p_url = ''u'', p_domain = ''d'', p_contentType = ''general'', p_platform = ''Web''\<rparr>"

definition sample_last :: string where
  "sample_last = ''Spring tides rise when sun and moon pull along one line while neap tides follow eight days later as that pull is split across two lines''"

text \<open>A third connection, stronger than the other two.\<close>

definition sample_connection3 :: connection where
  "sample_connection3 = sample_connection\<lparr>fromId := ''8-2'', strength := 0.95, timestamp := 4\<rparr>"

text \<open>The manager of \<open>storage-manager.js\<close> after it has pinned the first sample connection.\<close>

definition sample_pinned_manager :: storage_manager where
  "sample_pinned_manager = snd (sm_pinConnection 20 True sample_connection loaded_StorageManager)"




section \<open>Properties\<close>

subsection \<open>Sorting with a consistent comparator\<close>

lemma set_insort_cmp [simp]: "set (insort_cmp cmp x ys) = insert x (set ys)"
  by (induction ys) auto

lemma mset_insort_cmp [simp]: "mset (insort_cmp cmp x ys) = add_mset x (mset ys)"
  by (induction ys) auto

lemma mset_js_sort [simp]: "mset (js_sort cmp xs) = mset xs"
  by (induction xs) (auto simp: js_sort_def)

lemma set_js_sort [simp]: "set (js_sort cmp xs) = set xs"
  by (induction xs) (auto simp: js_sort_def)

lemma length_js_sort [simp]: "length (js_sort cmp xs) = length xs"
  using mset_js_sort[of cmp xs] by (metis size_mset)

lemma distinct_js_sort [simp]: "distinct (js_sort cmp xs) = distinct xs"
  using mset_js_sort[of cmp xs] by (metis mset_eq_imp_distinct_iff)

lemma sorted_insort_cmp:
  assumes "consistent cmp" "sorted_wrt (\<lambda>a b. cmp a b \<le> 0) ys"
  shows "sorted_wrt (\<lambda>a b. cmp a b \<le> 0) (insort_cmp cmp x ys)"
  using assms(2)
proof (induction ys)
  case Nil
  then show ?case by simp
next
  case (Cons y ys)
  show ?case
  proof (cases "cmp x y \<le> 0")
    case True
    have "\<forall>z \<in> set ys. cmp x z \<le> 0"
      using True Cons.prems assms(1) unfolding consistent_def by (metis sorted_wrt.simps(2))
    with True Cons.prems show ?thesis by simp
  next
    case False
    then have "cmp y x \<le> 0" using assms(1) unfolding consistent_def by blast
    with False Cons show ?thesis by auto
  qed
qed

lemma sorted_js_sort:
  "consistent cmp \<Longrightarrow> sorted_wrt (\<lambda>a b. cmp a b \<le> 0) (js_sort cmp xs)"
  by (induction xs) (auto simp: js_sort_def sorted_insort_cmp)

lemma filter_insort_cmp:
  assumes "consistent cmp" "sorted_wrt (\<lambda>a b. cmp a b \<le> 0) ys"
    and "\<And>y. y \<in> set ys \<Longrightarrow> P y \<Longrightarrow> P x \<Longrightarrow> cmp x y \<le> 0"
  shows "filter P (insort_cmp cmp x ys) = (if P x then x # filter P ys else filter P ys)"
  using assms(2,3)
proof (induction ys)
  case Nil
  then show ?case by simp
next
  case (Cons y ys)
  then show ?case by auto
qed

lemma stable_js_sort:
  assumes "consistent cmp"
    and "\<And>x y. P x \<Longrightarrow> P y \<Longrightarrow> cmp x y \<le> 0"
  shows "filter P (js_sort cmp xs) = filter P xs"
proof (induction xs)
  case Nil
  then show ?case by (simp add: js_sort_def)
next
  case (Cons x xs)
  have "filter P (insort_cmp cmp x (js_sort cmp xs))
        = (if P x then x # filter P (js_sort cmp xs) else filter P (js_sort cmp xs))"
    by (rule filter_insort_cmp[OF assms(1) sorted_js_sort[OF assms(1)]]) (simp add: assms(2))
  with Cons show ?case by (simp add: js_sort_def)
qed

lemma sorted_wrt_partition:
  assumes "sorted_wrt R xs" "\<And>x y. R x y \<Longrightarrow> P y \<Longrightarrow> P x"
  shows "xs = filter P xs @ filter (\<lambda>x. \<not> P x) xs"
  using assms(1)
proof (induction xs)
  case Nil
  then show ?case by simp
next
  case (Cons x xs)
  show ?case
  proof (cases "P x")
    case True
    with Cons show ?thesis by simp
  next
    case False
    have "\<forall>y \<in> set xs. \<not> P y" using Cons.prems False assms(2) by auto
    then have "filter P xs = []" "filter (\<lambda>x. \<not> P x) xs = xs" by (auto simp: filter_empty_conv filter_id_conv)
    with False show ?thesis by simp
  qed
qed

lemma sorted_wrt_take_drop:
  assumes "sorted_wrt R xs" "x \<in> set (take k xs)" "y \<in> set (drop k xs)"
  shows "R x y"
proof -
  have "sorted_wrt R (take k xs @ drop k xs)" using assms(1) by simp
  then show ?thesis using assms(2,3) unfolding sorted_wrt_append by blast
qed

text \<open>
  For a consistent comparator, the stable sorted permutation of a list is unique: any
  stable sorting procedure returns what \<open>js_sort\<close> returns.
\<close>

lemma stable_sorted_unique:
  assumes c: "consistent cmp"
    and "mset xs = mset ys"
    and "sorted_wrt (\<lambda>a b. cmp a b \<le> 0) xs" "sorted_wrt (\<lambda>a b. cmp a b \<le> 0) ys"
    and "\<And>a. filter (\<lambda>b. cmp a b \<le> 0 \<and> cmp b a \<le> 0) xs
             = filter (\<lambda>b. cmp a b \<le> 0 \<and> cmp b a \<le> 0) ys"
  shows "xs = ys"
  using assms(2-5)
proof (induction xs arbitrary: ys)
  case Nil
  then show ?case by simp
next
  case (Cons x xs)
  from Cons.prems(1) obtain y ys' where ys: "ys = y # ys'" by (cases ys) auto
  have trans: "\<And>p q r. cmp p q \<le> 0 \<Longrightarrow> cmp q r \<le> 0 \<Longrightarrow> cmp p r \<le> 0"
    using c unfolding consistent_def by blast
  have refl: "\<And>p. cmp p p \<le> 0" using c unfolding consistent_def by blast
  have "y \<in> set (x # xs)" using Cons.prems(1) ys by (metis list.set_intros(1) mset_eq_setD)
  then have xy: "cmp x y \<le> 0" using Cons.prems(2) refl by auto
  have "x \<in> set (y # ys')" using Cons.prems(1) ys by (metis list.set_intros(1) mset_eq_setD)
  then have yx: "cmp y x \<le> 0" using Cons.prems(3) refl unfolding ys by auto
  have "filter (\<lambda>b. cmp x b \<le> 0 \<and> cmp b x \<le> 0) (x # xs)
        = filter (\<lambda>b. cmp x b \<le> 0 \<and> cmp b x \<le> 0) (y # ys')"
    using Cons.prems(4)[of x] unfolding ys .
  then have hd: "x = y"
    using xy yx refl by simp
  have "filter (\<lambda>b. cmp a b \<le> 0 \<and> cmp b a \<le> 0) xs
        = filter (\<lambda>b. cmp a b \<le> 0 \<and> cmp b a \<le> 0) ys'" for a
    using Cons.prems(4)[of a] unfolding ys hd by (simp split: if_splits)
  moreover have "mset xs = mset ys'" using Cons.prems(1) unfolding ys hd by simp
  moreover have "sorted_wrt (\<lambda>a b. cmp a b \<le> 0) xs" "sorted_wrt (\<lambda>a b. cmp a b \<le> 0) ys'"
    using Cons.prems(2,3) unfolding ys by simp_all
  ultimately have "xs = ys'" by (intro Cons.IH)
  then show ?case unfolding ys hd by simp
qed

lemma js_sort_unique:
  assumes c: "consistent cmp"
    and "mset ys = mset xs"
    and "sorted_wrt (\<lambda>a b. cmp a b \<le> 0) ys"
    and "\<And>a. filter (\<lambda>b. cmp a b \<le> 0 \<and> cmp b a \<le> 0) ys
             = filter (\<lambda>b. cmp a b \<le> 0 \<and> cmp b a \<le> 0) xs"
  shows "ys = js_sort cmp xs"
proof (rule stable_sorted_unique[OF c])
  show "mset ys = mset (js_sort cmp xs)" using assms(2) by simp
  show "sorted_wrt (\<lambda>a b. cmp a b \<le> 0) ys" by (rule assms(3))
  show "sorted_wrt (\<lambda>a b. cmp a b \<le> 0) (js_sort cmp xs)" by (rule sorted_js_sort[OF c])
  fix a
  have "filter (\<lambda>b. cmp a b \<le> 0 \<and> cmp b a \<le> 0) (js_sort cmp xs)
        = filter (\<lambda>b. cmp a b \<le> 0 \<and> cmp b a \<le> 0) xs"
    by (rule stable_js_sort[OF c]) (use c in \<open>unfold consistent_def, blast\<close>)
  then show "filter (\<lambda>b. cmp a b \<le> 0 \<and> cmp b a \<le> 0) ys
             = filter (\<lambda>b. cmp a b \<le> 0 \<and> cmp b a \<le> 0) (js_sort cmp xs)"
    using assms(4)[of a] by simp
qed

subsection \<open>The merged view\<close>

lemma compare_ranks: "(compareConnections a b \<le> 0) = ranks_before a b"
  by (auto simp: compareConnections_def ranks_before_def)

lemma consistent_compareConnections: "consistent compareConnections"
  unfolding consistent_def compare_ranks by (auto simp: ranks_before_def)

lemma array_find_None: "(array_find p xs = None) = (\<forall>x \<in> set xs. \<not> p x)"
  by (auto simp: array_find_def List.find_None_iff)

lemma mergeViews_filter:
  "mergeViews ps rs = ps @ filter (\<lambda>r. cid r \<notin> cid ` set ps) rs"
  unfolding mergeViews_def by (auto simp: array_find_None image_iff intro!: filter_cong)

lemma pinned_prefix:
  assumes "\<And>p. p \<in> set ps \<Longrightarrow> truthy (pinned (vconn p))"
      and "\<And>r. r \<in> set rs \<Longrightarrow> \<not> truthy (pinned (vconn r))"
      and "length ps \<le> n"
  shows "set ps \<subseteq> set (take n (js_sort compareConnections (mergeViews ps rs)))"
proof -
  let ?P = "\<lambda>v. truthy (pinned (vconn v))"
  let ?V = "js_sort compareConnections (mergeViews ps rs)"
  have sorted: "sorted_wrt ranks_before ?V"
    using sorted_js_sort[OF consistent_compareConnections] by (simp add: compare_ranks)
  have part: "?V = filter ?P ?V @ filter (\<lambda>x. \<not> ?P x) ?V"
    by (rule sorted_wrt_partition[OF sorted]) (auto simp: ranks_before_def)
  have "mset (filter ?P ?V) = filter_mset ?P (mset (mergeViews ps rs))"
    by simp
  also have "\<dots> = mset (filter ?P (mergeViews ps rs))" by simp
  also have "filter ?P (mergeViews ps rs) = ps"
    using assms(1,2) by (simp add: mergeViews_def filter_id_conv filter_empty_conv)
  finally have m: "mset (filter ?P ?V) = mset ps" .
  then have len: "length (filter ?P ?V) = length ps" by (metis size_mset)
  have "take (length ps) ?V = filter ?P ?V"
    using part len by (metis append_eq_conv_conj)
  then have "set ps = set (take (length ps) ?V)" using m by (metis set_mset_mset)
  also have "\<dots> \<subseteq> set (take n ?V)" using assms(3) by (rule set_take_subset_set_take)
  finally show ?thesis .
qed

lemma merged_view:
  assumes "\<And>p. p \<in> set ps \<Longrightarrow> truthy (pinned (vconn p))"
      and "\<And>r. r \<in> set rs \<Longrightarrow> \<not> truthy (pinned (vconn r))"
  shows "mset (js_sort compareConnections (mergeViews ps rs))
           = mset ps + mset (filter (\<lambda>r. cid r \<notin> cid ` set ps) rs)"
    and "sorted_wrt ranks_before (js_sort compareConnections (mergeViews ps rs))"
    and "filter (tied a) (js_sort compareConnections (mergeViews ps rs))
           = filter (tied a) (ps @ filter (\<lambda>r. cid r \<notin> cid ` set ps) rs)"
    and "length ps \<le> n \<Longrightarrow> set ps \<subseteq> set (take n (js_sort compareConnections (mergeViews ps rs)))"
proof -
  show "mset (js_sort compareConnections (mergeViews ps rs))
           = mset ps + mset (filter (\<lambda>r. cid r \<notin> cid ` set ps) rs)"
    by (simp add: mergeViews_filter)
  show "sorted_wrt ranks_before (js_sort compareConnections (mergeViews ps rs))"
    using sorted_js_sort[OF consistent_compareConnections] by (simp add: compare_ranks)
  have "filter (tied a) (js_sort compareConnections (mergeViews ps rs))
           = filter (tied a) (mergeViews ps rs)"
    by (rule stable_js_sort[OF consistent_compareConnections])
       (auto simp: compare_ranks tied_def ranks_before_def)
  then show "filter (tied a) (js_sort compareConnections (mergeViews ps rs))
           = filter (tied a) (ps @ filter (\<lambda>r. cid r \<notin> cid ` set ps) rs)"
    by (simp only: mergeViews_filter)
  show "length ps \<le> n \<Longrightarrow> set ps \<subseteq> set (take n (js_sort compareConnections (mergeViews ps rs)))"
    using assms by (rule pinned_prefix)
qed

lemma pinned_views_truthy: "p \<in> set (getPinnedConnections m) \<Longrightarrow> truthy (pinned (vconn p))"
  by (auto simp: getPinnedConnections_def truthy_def)

lemma sm_pinned_views_truthy: "p \<in> set (sm_getPinnedConnections m) \<Longrightarrow> truthy (pinned (vconn p))"
  by (auto simp: sm_getPinnedConnections_def truthy_def)

lemma regular_views_falsy: "r \<in> set (map regularView cs) \<Longrightarrow> \<not> truthy (pinned (vconn r))"
  by (auto simp: regularView_def truthy_def)

lemma sm_regular_views_falsy: "r \<in> set (map sm_regularView cs) \<Longrightarrow> \<not> truthy (pinned (vconn r))"
  by (auto simp: sm_regularView_def truthy_def)

lemma length_getPinnedConnections [simp]: "length (getPinnedConnections m) = length m"
  by (simp add: getPinnedConnections_def map_values_def)

lemma merged_view_set:
  "set (js_sort compareConnections (mergeViews ps rs)) = set ps \<union> {r \<in> set rs. cid r \<notin> cid ` set ps}"
  by (auto simp: mergeViews_filter)

lemma merged_view_length:
  "length (js_sort compareConnections (mergeViews ps rs))
   = length ps + length (filter (\<lambda>r. cid r \<notin> cid ` set ps) rs)"
  by (simp add: mergeViews_filter)

lemma pinned_ids:
  "cid ` set (getPinnedConnections m) = (\<lambda>e. Some (generateConnectionId (conn (snd e)))) ` set m"
  by (simp add: getPinnedConnections_def map_values_def image_image)

lemma sm_pinned_ids:
  "cid ` set (sm_getPinnedConnections m) = (\<lambda>e. sm_generateConnectionId (conn (snd e))) ` set m"
  by (simp add: sm_getPinnedConnections_def map_values_def image_image)

lemma length_sm_getPinnedConnections [simp]: "length (sm_getPinnedConnections m) = length m"
  by (simp add: sm_getPinnedConnections_def map_values_def)

lemma getAll_entries:
  shows "\<forall>e \<in> set (pinnedConnections w). \<exists>v \<in> set (getAllConnections w).
           vconn v = (conn (snd e))\<lparr>pinned := Some True\<rparr>
           \<and> cid v = Some (generateConnectionId (conn (snd e)))
           \<and> vpinnedAt v = Some (pinnedAt (snd e))"
    and "\<forall>c \<in> set (connections w).
           generateConnectionId c \<notin> (\<lambda>e. generateConnectionId (conn (snd e))) ` set (pinnedConnections w)
           \<longrightarrow> (\<exists>v \<in> set (getAllConnections w).
                  vconn v = c\<lparr>pinned := Some False\<rparr> \<and> cid v = Some (generateConnectionId c)
                  \<and> vpinnedAt v = None)"
    and "length (getAllConnections w)
         = length (pinnedConnections w)
           + length (filter (\<lambda>c. generateConnectionId c
                               \<notin> (\<lambda>e. generateConnectionId (conn (snd e))) ` set (pinnedConnections w))
                       (connections w))"
proof -
  let ?P = "getPinnedConnections (pinnedConnections w)"
  let ?ids = "(\<lambda>e. generateConnectionId (conn (snd e))) ` set (pinnedConnections w)"
  have g: "getAllConnections w = js_sort compareConnections (mergeViews ?P (map regularView (connections w)))"
    by (simp add: getAllConnections_def)
  have fresh: "(cid (regularView c) \<notin> cid ` set ?P) = (generateConnectionId c \<notin> ?ids)" for c
    unfolding pinned_ids by (auto simp: regularView_def)
  show "\<forall>e \<in> set (pinnedConnections w). \<exists>v \<in> set (getAllConnections w).
           vconn v = (conn (snd e))\<lparr>pinned := Some True\<rparr>
           \<and> cid v = Some (generateConnectionId (conn (snd e)))
           \<and> vpinnedAt v = Some (pinnedAt (snd e))"
  proof
    fix e assume e: "e \<in> set (pinnedConnections w)"
    let ?v = "\<lparr>vconn = (conn (snd e))\<lparr>pinned := Some True\<rparr>,
               cid = Some (generateConnectionId (conn (snd e))),
               vpinnedAt = Some (pinnedAt (snd e)), vpinnedDate = pinnedDate (snd e),
               vpinnedVersion = pinnedVersion (snd e)\<rparr>"
    have "?v \<in> set ?P" using e by (auto simp: getPinnedConnections_def map_values_def image_iff)
    then have "?v \<in> set (getAllConnections w)" unfolding g merged_view_set by simp
    then show "\<exists>v \<in> set (getAllConnections w).
           vconn v = (conn (snd e))\<lparr>pinned := Some True\<rparr>
           \<and> cid v = Some (generateConnectionId (conn (snd e)))
           \<and> vpinnedAt v = Some (pinnedAt (snd e))"
      by (intro bexI[of _ ?v]) simp_all
  qed
  show "\<forall>c \<in> set (connections w). generateConnectionId c \<notin> ?ids
           \<longrightarrow> (\<exists>v \<in> set (getAllConnections w).
                  vconn v = c\<lparr>pinned := Some False\<rparr> \<and> cid v = Some (generateConnectionId c)
                  \<and> vpinnedAt v = None)"
  proof (intro ballI impI)
    fix c assume c: "c \<in> set (connections w)" and n: "generateConnectionId c \<notin> ?ids"
    have "regularView c \<in> set (getAllConnections w)"
      unfolding g merged_view_set using c n fresh[of c] by simp
    then show "\<exists>v \<in> set (getAllConnections w).
                  vconn v = c\<lparr>pinned := Some False\<rparr> \<and> cid v = Some (generateConnectionId c)
                  \<and> vpinnedAt v = None"
      by (intro bexI[of _ "regularView c"]) (simp_all add: regularView_def)
  qed
  show "length (getAllConnections w)
         = length (pinnedConnections w)
           + length (filter (\<lambda>c. generateConnectionId c \<notin> ?ids) (connections w))"
    unfolding g merged_view_length by (simp add: filter_map comp_def fresh)
qed

lemma sm_getAll_entries:
  shows "\<forall>e \<in> set (sm_pinnedConnections m). \<exists>v \<in> set (sm_getAllConnections m rs).
           vconn v = (conn (snd e))\<lparr>pinned := Some True\<rparr>
           \<and> cid v = sm_generateConnectionId (conn (snd e))
           \<and> vpinnedAt v = Some (pinnedAt (snd e))"
    and "\<forall>c \<in> set rs.
           sm_generateConnectionId c \<notin> (\<lambda>e. sm_generateConnectionId (conn (snd e))) ` set (sm_pinnedConnections m)
           \<longrightarrow> (\<exists>v \<in> set (sm_getAllConnections m rs).
                  vconn v = c\<lparr>pinned := Some False\<rparr> \<and> cid v = sm_generateConnectionId c
                  \<and> vpinnedAt v = None)"
    and "length (sm_getAllConnections m rs)
         = length (sm_pinnedConnections m)
           + length (filter (\<lambda>c. sm_generateConnectionId c
                               \<notin> (\<lambda>e. sm_generateConnectionId (conn (snd e))) ` set (sm_pinnedConnections m))
                       rs)"
proof -
  let ?P = "sm_getPinnedConnections (sm_pinnedConnections m)"
  let ?ids = "(\<lambda>e. sm_generateConnectionId (conn (snd e))) ` set (sm_pinnedConnections m)"
  have g: "sm_getAllConnections m rs = js_sort compareConnections (mergeViews ?P (map sm_regularView rs))"
    by (simp add: sm_getAllConnections_def)
  have fresh: "(cid (sm_regularView c) \<notin> cid ` set ?P) = (sm_generateConnectionId c \<notin> ?ids)" for c
    unfolding sm_pinned_ids by (simp add: sm_regularView_def)
  show "\<forall>e \<in> set (sm_pinnedConnections m). \<exists>v \<in> set (sm_getAllConnections m rs).
           vconn v = (conn (snd e))\<lparr>pinned := Some True\<rparr>
           \<and> cid v = sm_generateConnectionId (conn (snd e))
           \<and> vpinnedAt v = Some (pinnedAt (snd e))"
  proof
    fix e assume e: "e \<in> set (sm_pinnedConnections m)"
    let ?v = "\<lparr>vconn = (conn (snd e))\<lparr>pinned := Some True\<rparr>,
               cid = sm_generateConnectionId (conn (snd e)),
               vpinnedAt = Some (pinnedAt (snd e)), vpinnedDate = pinnedDate (snd e),
               vpinnedVersion = pinnedVersion (snd e)\<rparr>"
    have "?v \<in> set ?P" using e by (auto simp: sm_getPinnedConnections_def map_values_def image_iff)
    then have "?v \<in> set (sm_getAllConnections m rs)" unfolding g merged_view_set by simp
    then show "\<exists>v \<in> set (sm_getAllConnections m rs).
           vconn v = (conn (snd e))\<lparr>pinned := Some True\<rparr>
           \<and> cid v = sm_generateConnectionId (conn (snd e))
           \<and> vpinnedAt v = Some (pinnedAt (snd e))"
      by (intro bexI[of _ ?v]) simp_all
  qed
  show "\<forall>c \<in> set rs. sm_generateConnectionId c \<notin> ?ids
           \<longrightarrow> (\<exists>v \<in> set (sm_getAllConnections m rs).
                  vconn v = c\<lparr>pinned := Some False\<rparr> \<and> cid v = sm_generateConnectionId c
                  \<and> vpinnedAt v = None)"
  proof (intro ballI impI)
    fix c assume c: "c \<in> set rs" and n: "sm_generateConnectionId c \<notin> ?ids"
    have "sm_regularView c \<in> set (sm_getAllConnections m rs)"
      unfolding g merged_view_set using c n fresh[of c] by simp
    then show "\<exists>v \<in> set (sm_getAllConnections m rs).
                  vconn v = c\<lparr>pinned := Some False\<rparr> \<and> cid v = sm_generateConnectionId c
                  \<and> vpinnedAt v = None"
      by (intro bexI[of _ "sm_regularView c"]) (simp_all add: sm_regularView_def)
  qed
  show "length (sm_getAllConnections m rs)
         = length (sm_pinnedConnections m)
           + length (filter (\<lambda>c. sm_generateConnectionId c \<notin> ?ids) rs)"
    unfolding g merged_view_length by (simp add: filter_map comp_def fresh)
qed

text \<open>
  C1. In both files the merged view holds a view of every entry of the pinned ledger
  (the entry's connection with \<open>pinned\<close> true, its recomputed id and its pin stamp) and
  a view of every connection of the daily list whose id is the id of no ledger entry
  (with \<open>pinned\<close> false), and nothing else; it is sorted by the ranking (pinned first,
  then strength descending, then timestamp descending), ties keeping the order of the
  merge. \<open>GET_CONNECTIONS\<close> answers the first 50 elements of the view of
  \<open>background.js\<close>, which still hold every pinned view when the ledger has at most 50
  entries.
\<close>

theorem allConnections_merged_sorted_truncated:
  "mset (getAllConnections w)
     = mset (getPinnedConnections (pinnedConnections w))
       + mset (filter (\<lambda>r. cid r \<notin> cid ` set (getPinnedConnections (pinnedConnections w)))
                 (map regularView (connections w)))
   \<and> sorted_wrt ranks_before (getAllConnections w)
   \<and> filter (tied a) (getAllConnections w)
       = filter (tied a) (getPinnedConnections (pinnedConnections w)
           @ filter (\<lambda>r. cid r \<notin> cid ` set (getPinnedConnections (pinnedConnections w)))
               (map regularView (connections w)))
   \<and> (\<exists>recent. getConnections w = Listing recent (take 50 (getAllConnections w)))
   \<and> (length (pinnedConnections w) \<le> 50 \<longrightarrow>
        set (getPinnedConnections (pinnedConnections w)) \<subseteq> set (take 50 (getAllConnections w)))
   \<and> mset (sm_getAllConnections m rs)
     = mset (sm_getPinnedConnections (sm_pinnedConnections m))
       + mset (filter (\<lambda>r. cid r \<notin> cid ` set (sm_getPinnedConnections (sm_pinnedConnections m)))
                 (map sm_regularView rs))
   \<and> sorted_wrt ranks_before (sm_getAllConnections m rs)
   \<and> filter (tied a) (sm_getAllConnections m rs)
       = filter (tied a) (sm_getPinnedConnections (sm_pinnedConnections m)
           @ filter (\<lambda>r. cid r \<notin> cid ` set (sm_getPinnedConnections (sm_pinnedConnections m)))
               (map sm_regularView rs))
   \<and> (\<forall>e \<in> set (pinnedConnections w). \<exists>v \<in> set (getAllConnections w).
         vconn v = (conn (snd e))\<lparr>pinned := Some True\<rparr>
         \<and> cid v = Some (generateConnectionId (conn (snd e)))
         \<and> vpinnedAt v = Some (pinnedAt (snd e)))
   \<and> (\<forall>c \<in> set (connections w).
         generateConnectionId c \<notin> (\<lambda>e. generateConnectionId (conn (snd e))) ` set (pinnedConnections w)
         \<longrightarrow> (\<exists>v \<in> set (getAllConnections w).
                vconn v = c\<lparr>pinned := Some False\<rparr> \<and> cid v = Some (generateConnectionId c)
                \<and> vpinnedAt v = None))
   \<and> length (getAllConnections w)
       = length (pinnedConnections w)
         + length (filter (\<lambda>c. generateConnectionId c
                             \<notin> (\<lambda>e. generateConnectionId (conn (snd e))) ` set (pinnedConnections w))
                     (connections w))
   \<and> (\<forall>e \<in> set (sm_pinnedConnections m). \<exists>v \<in> set (sm_getAllConnections m rs).
         vconn v = (conn (snd e))\<lparr>pinned := Some True\<rparr>
         \<and> cid v = sm_generateConnectionId (conn (snd e))
         \<and> vpinnedAt v = Some (pinnedAt (snd e)))
   \<and> (\<forall>c \<in> set rs.
         sm_generateConnectionId c
           \<notin> (\<lambda>e. sm_generateConnectionId (conn (snd e))) ` set (sm_pinnedConnections m)
         \<longrightarrow> (\<exists>v \<in> set (sm_getAllConnections m rs).
                vconn v = c\<lparr>pinned := Some False\<rparr> \<and> cid v = sm_generateConnectionId c
                \<and> vpinnedAt v = None))
   \<and> length (sm_getAllConnections m rs)
       = length (sm_pinnedConnections m)
         + length (filter (\<lambda>c. sm_generateConnectionId c
                             \<notin> (\<lambda>e. sm_generateConnectionId (conn (snd e))) ` set (sm_pinnedConnections m))
                     rs)"
proof -
  have b1: "\<And>p. p \<in> set (getPinnedConnections (pinnedConnections w)) \<Longrightarrow> truthy (pinned (vconn p))"
    by (rule pinned_views_truthy)
  have b2: "\<And>r. r \<in> set (map regularView (connections w)) \<Longrightarrow> \<not> truthy (pinned (vconn r))"
    by (rule regular_views_falsy)
  have s1: "\<And>p. p \<in> set (sm_getPinnedConnections (sm_pinnedConnections m)) \<Longrightarrow> truthy (pinned (vconn p))"
    by (rule sm_pinned_views_truthy)
  have s2: "\<And>r. r \<in> set (map sm_regularView rs) \<Longrightarrow> \<not> truthy (pinned (vconn r))"
    by (rule sm_regular_views_falsy)
  note bg = merged_view[of "getPinnedConnections (pinnedConnections w)" "map regularView (connections w)",
      OF b1 b2]
  note sm = merged_view[of "sm_getPinnedConnections (sm_pinnedConnections m)" "map sm_regularView rs",
      OF s1 s2]
  have g: "getAllConnections w = js_sort compareConnections
      (mergeViews (getPinnedConnections (pinnedConnections w)) (map regularView (connections w)))"
    by (simp add: getAllConnections_def)
  have s: "sm_getAllConnections m rs = js_sort compareConnections
      (mergeViews (sm_getPinnedConnections (sm_pinnedConnections m)) (map sm_regularView rs))"
    by (simp add: sm_getAllConnections_def)
  have l: "\<exists>recent. getConnections w = Listing recent (take 50 (getAllConnections w))"
    by (simp add: getConnections_def)
  have p: "length (pinnedConnections w) \<le> 50 \<longrightarrow>
        set (getPinnedConnections (pinnedConnections w)) \<subseteq> set (take 50 (getAllConnections w))"
    unfolding g using bg(4)[where n=50] by simp
  have first: "mset (getAllConnections w)
     = mset (getPinnedConnections (pinnedConnections w))
       + mset (filter (\<lambda>r. cid r \<notin> cid ` set (getPinnedConnections (pinnedConnections w)))
                 (map regularView (connections w)))
   \<and> sorted_wrt ranks_before (getAllConnections w)
   \<and> filter (tied a) (getAllConnections w)
       = filter (tied a) (getPinnedConnections (pinnedConnections w)
           @ filter (\<lambda>r. cid r \<notin> cid ` set (getPinnedConnections (pinnedConnections w)))
               (map regularView (connections w)))
   \<and> (\<exists>recent. getConnections w = Listing recent (take 50 (getAllConnections w)))
   \<and> (length (pinnedConnections w) \<le> 50 \<longrightarrow>
        set (getPinnedConnections (pinnedConnections w)) \<subseteq> set (take 50 (getAllConnections w)))
   \<and> mset (sm_getAllConnections m rs)
     = mset (sm_getPinnedConnections (sm_pinnedConnections m))
       + mset (filter (\<lambda>r. cid r \<notin> cid ` set (sm_getPinnedConnections (sm_pinnedConnections m)))
                 (map sm_regularView rs))
   \<and> sorted_wrt ranks_before (sm_getAllConnections m rs)
   \<and> filter (tied a) (sm_getAllConnections m rs)
       = filter (tied a) (sm_getPinnedConnections (sm_pinnedConnections m)
           @ filter (\<lambda>r. cid r \<notin> cid ` set (sm_getPinnedConnections (sm_pinnedConnections m)))
               (map sm_regularView rs))"
    using bg(1,2)[folded g] bg(3)[where a=a, folded g] sm(1,2)[folded s] sm(3)[where a=a, folded s] l p
    by blast
  show ?thesis
    using first getAll_entries[where w=w] sm_getAll_entries[where m=m and rs=rs]
    by (elim conjE, intro conjI) assumption+
qed

lemma id_ignores_pinned [simp]:
  "generateConnectionId (c\<lparr>pinned := p\<rparr>) = generateConnectionId c"
  "sm_generateConnectionId (c\<lparr>pinned := p\<rparr>) = sm_generateConnectionId c"
  by (simp_all add: generateConnectionId_def sm_generateConnectionId_def)

lemma sample_pinned_ledger:
  "sm_pinnedConnections sample_pinned_manager
   = [(''1-5-2-3-7'', \<lparr>conn = sample_connection\<lparr>pinned := Some True\<rparr>, pinnedAt = 20,
                        pinnedDate = None, pinnedVersion = Some ''1.0''\<rparr>)]"
  by (simp add: sample_pinned_manager_def sm_pinConnection_def sm_generateConnectionId_def
      sample_connection_def numberToString_def digits.simps digit_char_def map_set_def map_has_def
      sm_savePinnedConnections_def loaded_StorageManager_def)

lemma sample_sm_ids:
  "sm_generateConnectionId sample_connection = Some ''1-5-2-3-7''"
  "sm_generateConnectionId sample_connection2 = Some ''4-6-2-3-9''"
  "sm_generateConnectionId sample_connection3 = Some ''8-2-2-3-4''"
  by (simp_all add: sm_generateConnectionId_def sample_connection_def sample_connection2_def
      sample_connection3_def numberToString_def digits.simps digit_char_def)

lemma sample_sm_view:
  "map (\<lambda>v. (cid v, pinned (vconn v), strength (vconn v), vpinnedAt v))
     (sm_getAllConnections sample_pinned_manager
        [sample_connection, sample_connection2, sample_connection3])
   = [(Some ''1-5-2-3-7'', Some True, 0.8, Some 20), (Some ''8-2-2-3-4'', Some False, 0.95, None),
      (Some ''4-6-2-3-9'', Some False, 0.9, None)]"
  unfolding sm_getAllConnections_def Let_def sample_pinned_ledger
  by (simp add: sm_getPinnedConnections_def map_values_def sm_regularView_def sample_sm_ids
      mergeViews_def array_find_def js_sort_def compareConnections_def truthy_def)
     (simp add: sample_connection_def sample_connection2_def sample_connection3_def)

theorem allConnections_witness:
  "length (pinnedConnections sample_weaves) \<le> 50
   \<and> set (getPinnedConnections (pinnedConnections sample_weaves))
       \<subseteq> set (take 50 (getAllConnections sample_weaves))
   \<and> sorted_wrt ranks_before (getAllConnections sample_weaves)
   \<and> map cid (getAllConnections sample_weaves) = [Some ''1-5-2-3-7'', Some ''4-6-2-3-9'']
   \<and> map (\<lambda>v. (cid v, pinned (vconn v), strength (vconn v), vpinnedAt v))
        (sm_getAllConnections sample_pinned_manager
           [sample_connection, sample_connection2, sample_connection3])
       = [(Some ''1-5-2-3-7'', Some True, 0.8, Some 20), (Some ''8-2-2-3-4'', Some False, 0.95, None),
          (Some ''4-6-2-3-9'', Some False, 0.9, None)]
   \<and> sorted_wrt ranks_before
        (sm_getAllConnections sample_pinned_manager
           [sample_connection, sample_connection2, sample_connection3])
   \<and> length (sm_getAllConnections sample_pinned_manager
        [sample_connection, sample_connection2, sample_connection3]) = 3
   \<and> (\<exists>v \<in> set (sm_getAllConnections sample_pinned_manager
                    [sample_connection, sample_connection2, sample_connection3]).
         vconn v = sample_connection2\<lparr>pinned := Some False\<rparr> \<and> cid v = Some ''4-6-2-3-9''
         \<and> vpinnedAt v = None)
   \<and> (\<exists>v \<in> set (getAllConnections sample_weaves).
         vconn v = sample_connection2\<lparr>pinned := Some False\<rparr> \<and> cid v = Some ''4-6-2-3-9''
         \<and> vpinnedAt v = None)"
proof -
  have h: "length (pinnedConnections sample_weaves) \<le> 50"
    by (simp add: sample_weaves_def new_WeavesAI_def)
  have e: "map cid (getAllConnections sample_weaves) = [Some ''1-5-2-3-7'', Some ''4-6-2-3-9'']"
    by (simp add: getAllConnections_def sample_weaves_def new_WeavesAI_def getPinnedConnections_def
      map_values_def regularView_def mergeViews_def array_find_def js_sort_def generateConnectionId_def
      numberToString_def digits.simps digit_char_def
      compareConnections_def truthy_def sample_connection_def sample_connection2_def)
  have ids: "generateConnectionId sample_connection = ''1-5-2-3-7''"
    "generateConnectionId sample_connection2 = ''4-6-2-3-9''"
    by (simp_all add: generateConnectionId_def sample_connection_def sample_connection2_def
        numberToString_def digits.simps digit_char_def)
  have c2: "sample_connection2 \<in> set (connections sample_weaves)"
    "generateConnectionId sample_connection2
       \<notin> (\<lambda>e. generateConnectionId (conn (snd e))) ` set (pinnedConnections sample_weaves)"
    by (simp_all add: sample_weaves_def new_WeavesAI_def ids)
  have s2: "sample_connection2 \<in> set [sample_connection, sample_connection2, sample_connection3]"
    "sm_generateConnectionId sample_connection2
       \<notin> (\<lambda>e. sm_generateConnectionId (conn (snd e))) ` set (sm_pinnedConnections sample_pinned_manager)"
    by (simp_all add: sample_pinned_ledger sample_sm_ids)
  note t = allConnections_merged_sorted_truncated[where w=sample_weaves
        and a="regularView sample_connection" and m=sample_pinned_manager
        and rs="[sample_connection, sample_connection2, sample_connection3]"]
  have l: "length (sm_getAllConnections sample_pinned_manager
        [sample_connection, sample_connection2, sample_connection3]) = 3"
    using t s2(2) by (simp add: sample_pinned_ledger sample_sm_ids)
  have t1: "set (getPinnedConnections (pinnedConnections sample_weaves))
              \<subseteq> set (take 50 (getAllConnections sample_weaves))"
    using t h by blast
  have t2: "sorted_wrt ranks_before (getAllConnections sample_weaves)"
    using t by blast
  have t3: "sorted_wrt ranks_before
        (sm_getAllConnections sample_pinned_manager
           [sample_connection, sample_connection2, sample_connection3])"
    using t by blast
  have "\<exists>v \<in> set (sm_getAllConnections sample_pinned_manager
                    [sample_connection, sample_connection2, sample_connection3]).
         vconn v = sample_connection2\<lparr>pinned := Some False\<rparr>
         \<and> cid v = sm_generateConnectionId sample_connection2 \<and> vpinnedAt v = None"
    using t s2 by blast
  then have t4: "\<exists>v \<in> set (sm_getAllConnections sample_pinned_manager
                    [sample_connection, sample_connection2, sample_connection3]).
         vconn v = sample_connection2\<lparr>pinned := Some False\<rparr> \<and> cid v = Some ''4-6-2-3-9''
         \<and> vpinnedAt v = None"
    by (simp only: sample_sm_ids(2))
  have "\<exists>v \<in> set (getAllConnections sample_weaves).
         vconn v = sample_connection2\<lparr>pinned := Some False\<rparr>
         \<and> cid v = Some (generateConnectionId sample_connection2) \<and> vpinnedAt v = None"
    using t c2 by blast
  then have t5: "\<exists>v \<in> set (getAllConnections sample_weaves).
         vconn v = sample_connection2\<lparr>pinned := Some False\<rparr> \<and> cid v = Some ''4-6-2-3-9''
         \<and> vpinnedAt v = None"
    by (simp only: ids(2))
  show ?thesis
    using h t1 t2 e sample_sm_view t3 l t4 t5 by (intro conjI)
qed

subsection \<open>Ledger cleanup\<close>

lemma foldl_map_delete:
  "foldl (\<lambda>m e. map_delete (fst e) m) m T = filter (\<lambda>e. fst e \<notin> fst ` set T) m"
proof (induction T arbitrary: m)
  case Nil
  then show ?case by simp
next
  case (Cons t T)
  have "filter (\<lambda>e. fst e \<notin> fst ` set T) (map_delete (fst t) m)
        = filter (\<lambda>e. fst e \<notin> fst ` set (t # T)) m"
    unfolding map_delete_def filter_filter by (rule filter_cong) auto
  then show ?case by (simp add: Cons.IH)
qed

lemma sm_loop:
  "foldl (\<lambda>(pins, n) e. if old e then (map_delete (fst e) pins, n + 1) else (pins, n)) (p0, n0) es
   = (filter (\<lambda>x. fst x \<notin> fst ` {e \<in> set es. old e}) p0, n0 + length (filter old es))"
proof (induction es arbitrary: p0 n0)
  case Nil
  then show ?case by simp
next
  case (Cons e es)
  show ?case
  proof (cases "old e")
    case True
    have "filter (\<lambda>x. fst x \<notin> fst ` {e \<in> set es. old e}) (map_delete (fst e) p0)
          = filter (\<lambda>x. fst x \<notin> fst ` {a \<in> set (e # es). old a}) p0"
      unfolding map_delete_def filter_filter using True by (intro filter_cong refl) auto
    with True show ?thesis by (simp add: Cons.IH)
  next
    case False
    have "{a \<in> set (e # es). old a} = {a \<in> set es. old a}" using False by auto
    with False show ?thesis by (simp add: Cons.IH)
  qed
qed

lemma consistent_pinnedAt:
  "consistent (\<lambda>a b. real_of_int (pinnedAt (snd a) - pinnedAt (snd b)))"
  unfolding consistent_def by (simp add: linear)

lemma distinct_keys_mem:
  assumes "distinct (map fst m)" "set T \<subseteq> set m" "e \<in> set m"
  shows "(fst e \<in> fst ` set T) = (e \<in> set T)"
proof
  assume "fst e \<in> fst ` set T"
  then obtain t where t: "t \<in> set T" "fst t = fst e" by auto
  have "t \<in> set m" using t(1) assms(2) by blast
  then have "(fst e, snd t) \<in> set m" using t(2) by (metis prod.collapse)
  moreover have "(fst e, snd e) \<in> set m" using assms(3) by simp
  ultimately have "(fst e, snd t) \<in> set m" "(fst e, snd e) \<in> set m" by blast+
  then have "snd t = snd e" using assms(1) by (rule eq_key_imp_eq_value[rotated])
  then have "t = e" using t(2) by (simp add: prod_eq_iff)
  then show "e \<in> set T" using t(1) by simp
next
  assume "e \<in> set T"
  then show "fst e \<in> fst ` set T" by (rule imageI)
qed

lemma delete_keys_distinct:
  assumes "distinct (map fst m)" "set T \<subseteq> set m"
  shows "filter (\<lambda>e. fst e \<notin> fst ` set T) m = filter (\<lambda>e. e \<notin> set T) m"
  using distinct_keys_mem[OF assms] by (auto intro!: filter_cong)

lemma cleanup_within:
  "\<not> int (length (pinnedConnections w)) > maxPinnedConnections (settings w)
   \<Longrightarrow> cleanupPinnedConnections ok w = w"
  by (simp add: cleanupPinnedConnections_def)

lemma savePinned_pinned [simp]:
  "pinnedConnections (savePinnedConnections ok w) = pinnedConnections w"
  by (simp add: savePinnedConnections_def)

lemma cleanup_over:
  fixes ok :: bool and w :: weaves
  assumes over: "int (length (pinnedConnections w)) > maxPinnedConnections (settings w)"
      and dist: "distinct (map fst (pinnedConnections w))"
  defines "P' \<equiv> pinnedConnections (cleanupPinnedConnections ok w)"
  shows "length P' = nat (maxPinnedConnections (settings w))"
    and "P' = filter (\<lambda>e. e \<in> set P') (pinnedConnections w)"
    and "\<forall>r \<in> set (pinnedConnections w) - set P'. \<forall>k \<in> set P'. pinnedAt (snd r) \<le> pinnedAt (snd k)"
proof -
  let ?P = "pinnedConnections w"
  let ?S = "js_sort (\<lambda>a b. real_of_int (pinnedAt (snd a) - pinnedAt (snd b))) ?P"
  let ?k = "nat (int (length ?S) - maxPinnedConnections (settings w))"
  let ?T = "take ?k ?S"
  have dP: "distinct ?P" using dist by (rule distinct_map[THEN iffD1, THEN conjunct1])
  have dS: "distinct ?S" using dP by simp
  have sub: "set ?T \<subseteq> set ?P" using set_take_subset[of ?k ?S] by simp
  have "P' = foldl (\<lambda>m e. map_delete (fst e) m) ?P ?T"
    unfolding P'_def cleanupPinnedConnections_def Let_def using over
    by (simp del: of_int_diff)
  also have "\<dots> = filter (\<lambda>e. fst e \<notin> fst ` set ?T) ?P" by (rule foldl_map_delete)
  also have "\<dots> = filter (\<lambda>e. e \<notin> set ?T) ?P" by (rule delete_keys_distinct[OF dist sub])
  finally have P': "P' = filter (\<lambda>e. e \<notin> set ?T) ?P" .
  have un: "set ?T \<union> set (drop ?k ?S) = set ?P"
    using set_append[of ?T "drop ?k ?S"] by (simp del: set_append of_int_diff)
  have "distinct (?T @ drop ?k ?S)" using dS by (simp del: of_int_diff)
  then have disj: "set ?T \<inter> set (drop ?k ?S) = {}" by (simp only: distinct_append)
  have setP': "set P' = set (drop ?k ?S)"
    using un disj unfolding P' set_filter by blast
  have "distinct P'" unfolding P' using dP by simp
  then have "length P' = card (set P')" by (simp add: distinct_card)
  also have "\<dots> = length (drop ?k ?S)"
    unfolding setP' using dS distinct_drop[of ?S ?k] by (simp only: distinct_card)
  also have "\<dots> = nat (maxPinnedConnections (settings w))" using over by (simp del: of_int_diff)
  finally show "length P' = nat (maxPinnedConnections (settings w))" .
  have "filter (\<lambda>e. e \<notin> set ?T) ?P = filter (\<lambda>e. e \<in> set (filter (\<lambda>e. e \<notin> set ?T) ?P)) ?P"
    by (rule filter_cong[OF refl]) (simp del: of_int_diff)
  then show "P' = filter (\<lambda>e. e \<in> set P') ?P"
    unfolding P' .
  have sorted: "sorted_wrt (\<lambda>a b. pinnedAt (snd a) \<le> pinnedAt (snd b)) ?S"
    using sorted_js_sort[OF consistent_pinnedAt, of ?P] by (simp del: of_int_diff)
  show "\<forall>r \<in> set ?P - set P'. \<forall>k \<in> set P'. pinnedAt (snd r) \<le> pinnedAt (snd k)"
  proof (intro ballI)
    fix r k assume r: "r \<in> set ?P - set P'" and k: "k \<in> set P'"
    from r have "r \<in> set ?T" unfolding P' set_filter by blast
    moreover from k have "k \<in> set (drop ?k ?S)" using setP' by simp
    ultimately show "pinnedAt (snd r) \<le> pinnedAt (snd k)"
      using sorted_wrt_take_drop[OF sorted] by blast
  qed
qed

lemma sm_savePinned_pinned [simp]:
  "sm_pinnedConnections (sm_savePinnedConnections ok m) = sm_pinnedConnections m"
  by (simp add: sm_savePinnedConnections_def)

lemma sm_cleanup_retention:
  assumes "distinct (map fst (sm_pinnedConnections m))"
  shows "sm_pinnedConnections (sm_cleanupPinnedConnections t ok m)
         = filter (\<lambda>e. \<not> pinnedAt (snd e) < t - retentionDays (sm_settings m) * 24 * 60 * 60 * 1000)
             (sm_pinnedConnections m)"
proof -
  let ?old = "\<lambda>e. pinnedAt (snd e) < t - retentionDays (sm_settings m) * 24 * 60 * 60 * 1000"
  let ?P = "sm_pinnedConnections m"
  have "filter (\<lambda>x. fst x \<notin> fst ` {e \<in> set ?P. ?old e}) ?P = filter (\<lambda>e. \<not> ?old e) ?P"
  proof (rule filter_cong[OF refl])
    fix x assume x: "x \<in> set ?P"
    have "(fst x \<in> fst ` set (filter ?old ?P)) = (x \<in> set (filter ?old ?P))"
      by (rule distinct_keys_mem[OF assms _ x]) simp
    then have "(fst x \<in> fst ` {e \<in> set ?P. ?old e}) = ?old x"
      using x by simp
    then show "(fst x \<notin> fst ` {e \<in> set ?P. ?old e}) = (\<not> ?old x)" by simp
  qed
  then show ?thesis
    by (simp add: sm_cleanupPinnedConnections_def Let_def sm_loop split: prod.splits)
qed

text \<open>
  C4, as amended. The cleanup of \<open>background.js\<close> removes nothing by age: a ledger
  within the configured maximum is left as it is, and a larger one (keys distinct, as in
  a \<open>Map\<close>) is cut to exactly the maximum by evicting the oldest-pinned entries, the kept
  entries staying in their order. The cleanup of \<open>storage-manager.js\<close> removes exactly
  the entries pinned before \<open>now - retentionDays\<close> and evicts nothing for capacity.
\<close>

theorem cleanup_capacity_or_retention:
  "(\<not> maxPinnedConnections (settings w) < int (length (pinnedConnections w))
      \<longrightarrow> cleanupPinnedConnections ok w = w)
   \<and> (maxPinnedConnections (settings w) < int (length (pinnedConnections w))
        \<and> distinct (map fst (pinnedConnections w))
      \<longrightarrow> length (pinnedConnections (cleanupPinnedConnections ok w))
            = nat (maxPinnedConnections (settings w))
          \<and> pinnedConnections (cleanupPinnedConnections ok w)
            = filter (\<lambda>e. e \<in> set (pinnedConnections (cleanupPinnedConnections ok w)))
                (pinnedConnections w)
          \<and> (\<forall>r \<in> set (pinnedConnections w) - set (pinnedConnections (cleanupPinnedConnections ok w)).
               \<forall>k \<in> set (pinnedConnections (cleanupPinnedConnections ok w)).
                 pinnedAt (snd r) \<le> pinnedAt (snd k)))
   \<and> (distinct (map fst (sm_pinnedConnections m))
      \<longrightarrow> sm_pinnedConnections (sm_cleanupPinnedConnections t ok' m)
            = filter (\<lambda>e. \<not> pinnedAt (snd e) < t - retentionDays (sm_settings m) * 24 * 60 * 60 * 1000)
                (sm_pinnedConnections m))"
  using cleanup_within[of w ok] cleanup_over[of w ok] sm_cleanup_retention[of m t ok']
  by blast

theorem cleanup_capacity_or_retention_witness:
  "cleanupPinnedConnections True sample_weaves = sample_weaves
   \<and> map fst (pinnedConnections (cleanupPinnedConnections True sample_crowded)) = [''a'']
   \<and> length (pinnedConnections (cleanupPinnedConnections True sample_crowded)) = 1
   \<and> map fst (sm_pinnedConnections (sm_cleanupPinnedConnections 700000000 True sample_manager)) = [''b'']"
proof -
  have h1: "\<not> maxPinnedConnections (settings sample_weaves) < int (length (pinnedConnections sample_weaves))"
    by (simp add: sample_weaves_def new_WeavesAI_def DEFAULT_SETTINGS_def)
  have h2: "maxPinnedConnections (settings sample_crowded) < int (length (pinnedConnections sample_crowded))
        \<and> distinct (map fst (pinnedConnections sample_crowded))"
    by (simp add: sample_crowded_def new_WeavesAI_def DEFAULT_SETTINGS_def)
  have h3: "distinct (map fst (sm_pinnedConnections sample_manager))"
    by (simp add: sample_manager_def loaded_StorageManager_def)
  have e2: "map fst (pinnedConnections (cleanupPinnedConnections True sample_crowded)) = [''a'']"
    by (simp add: cleanupPinnedConnections_def sample_crowded_def new_WeavesAI_def DEFAULT_SETTINGS_def
        js_sort_def sample_pin_def map_delete_def savePinnedConnections_def Let_def)
  have m2: "nat (maxPinnedConnections (settings sample_crowded)) = 1"
    by (simp add: sample_crowded_def new_WeavesAI_def DEFAULT_SETTINGS_def)
  have c3: "filter (\<lambda>e. \<not> pinnedAt (snd e) < 700000000 - retentionDays (sm_settings sample_manager) * 24 * 60 * 60 * 1000)
                (sm_pinnedConnections sample_manager) = [(''b'', sample_pin 700000000)]"
    by (simp add: sample_manager_def loaded_StorageManager_def sm_DEFAULT_SETTINGS_def sample_pin_def)
  show ?thesis
    using h1 h2 h3 e2 m2 c3
      cleanup_capacity_or_retention[of sample_weaves True sample_manager 700000000 True]
      cleanup_capacity_or_retention[of sample_crowded True sample_manager 700000000 True]
    by simp
qed

theorem cleanup_keeps_expired_counterexample:
  "pinnedAt (sample_pin 20) < 700000000 - dataRetentionDays (settings sample_weaves) * 24 * 60 * 60 * 1000
   \<and> pinnedConnections sample_weaves = [(''1-5-2-3-7'', sample_pin 20)]
   \<and> pinnedConnections (cleanupPinnedConnections True sample_weaves) = [(''1-5-2-3-7'', sample_pin 20)]"
  by (simp add: cleanupPinnedConnections_def sample_weaves_def new_WeavesAI_def DEFAULT_SETTINGS_def
      sample_pin_def)

subsection \<open>Pinning at capacity\<close>

lemma pin_full:
  assumes "maxPinnedConnections (settings w) \<le> int (length (pinnedConnections w))"
  shows "pinConnection t d ok connectionId connection w = (False, w)"
  using assms by (simp add: pinConnection_def)

lemma pinFirst_full:
  assumes "maxPinnedConnections (settings w) \<le> int (length (pinnedConnections w))"
  shows "pinFirst e connectionId w = (Outcome False, w)"
  using assms by (simp add: pinFirst_def WeavesAI_pinConnection_def pin_full split: option.splits)

lemma saveData_pinned [simp]: "pinnedConnections (saveData t ok w) = pinnedConnections w"
  by (simp add: saveData_def savePinnedConnections_def)

lemma pinSecond_full:
  assumes "maxPinnedConnections (settings w) \<le> int (length (pinnedConnections w))"
  shows "pinnedConnections (snd (pinSecond e connectionId w)) = pinnedConnections w"
  using assms by (simp add: pinSecond_def pin_full split: option.splits)

lemma onMessage_pin_full:
  assumes "maxPinnedConnections (settings w) \<le> int (length (pinnedConnections w))"
  shows "pinnedConnections (snd (onMessage e sender (PIN_CONNECTION connectionId) w)) = pinnedConnections w"
  using pinSecond_full[OF assms, of e connectionId]
  by (cases "pinSecond e connectionId w") (simp add: onMessage_def pinFirst_full[OF assms])

lemma length_map_set:
  "length (map_set k v m) = (if map_has k m then length m else Suc (length m))"
  by (simp add: map_set_def)

lemma keys_map_set:
  "map fst (map_set k v m) = (if map_has k m then map fst m else map fst m @ [k])"
  by (induction m) (auto simp: map_set_def map_has_def)

lemma map_has_map_set [simp]: "map_has k (map_set k v m)"
  unfolding map_has_def keys_map_set by (simp add: map_has_def)

lemma sm_pin_succeeds:
  assumes "sm_generateConnectionId connection = Some k"
  shows "fst (sm_pinConnection t ok connection m) = True"
    and "map_has k (sm_pinnedConnections (snd (sm_pinConnection t ok connection m)))"
    and "length (sm_pinnedConnections (snd (sm_pinConnection t ok connection m)))
         = (if map_has k (sm_pinnedConnections m) then length (sm_pinnedConnections m)
            else Suc (length (sm_pinnedConnections m)))"
  using assms by (simp_all add: sm_pinConnection_def length_map_set)

lemma length_fifty_pins: "length fifty_pins = 50"
  by (simp add: fifty_pins_def)

lemma fifty_pins_key: "\<not> map_has ''1-5-2-3-7'' fifty_pins"
  by (auto simp: map_has_def fifty_pins_def)

lemma sample_id: "sm_generateConnectionId sample_connection = Some ''1-5-2-3-7''"
  by (simp add: sm_generateConnectionId_def sample_connection_def numberToString_def
      digits.simps digit_char_def)

text \<open>
  C2, as amended. On the ledger of \<open>background.js\<close>, a pin made while the ledger holds
  at least \<open>maxPinnedConnections\<close> entries answers \<open>false\<close> and changes nothing, and
  the ledger is the same after both \<open>PIN_CONNECTION\<close> branches have run.
  \<open>pinConnection\<close> of \<open>storage-manager.js\<close> has no capacity: it pins every
  connection that has an id.
\<close>

theorem pin_at_capacity:
  "(maxPinnedConnections (settings w) \<le> int (length (pinnedConnections w))
      \<longrightarrow> pinConnection t d ok connectionId connection w = (False, w)
          \<and> pinnedConnections (snd (onMessage e sender (PIN_CONNECTION connectionId) w))
              = pinnedConnections w)
   \<and> (sm_generateConnectionId connection = Some k
      \<longrightarrow> fst (sm_pinConnection t ok connection m) = True
          \<and> map_has k (sm_pinnedConnections (snd (sm_pinConnection t ok connection m))))"
  using pin_full[of w t d ok connectionId connection] onMessage_pin_full[of w e sender connectionId]
    sm_pin_succeeds(1,2)[of connection k t ok m]
  by blast

theorem pin_at_capacity_witness:
  "length (pinnedConnections sample_full) = 50
   \<and> maxPinnedConnections (settings sample_full) = 50
   \<and> pinConnection 99 ''Mon Jan 01 2024'' True ''1-5-2-3-7'' sample_connection sample_full
       = (False, sample_full)
   \<and> length (pinnedConnections
        (snd (onMessage sample_env None (PIN_CONNECTION ''1-5-2-3-7'') sample_full))) = 50
   \<and> fst (sm_pinConnection 99 True sample_connection loaded_StorageManager) = True"
proof -
  have l: "length (pinnedConnections sample_full) = 50"
    by (simp add: sample_full_def new_WeavesAI_def length_fifty_pins)
  have m: "maxPinnedConnections (settings sample_full) = 50"
    by (simp add: sample_full_def new_WeavesAI_def DEFAULT_SETTINGS_def)
  have h: "maxPinnedConnections (settings sample_full) \<le> int (length (pinnedConnections sample_full))"
    using l m by simp
  show ?thesis
    using l m h sample_id
      pin_at_capacity[of sample_full 99 "''Mon Jan 01 2024''" True "''1-5-2-3-7''" sample_connection
        sample_env None "''1-5-2-3-7''" loaded_StorageManager]
    by simp
qed

theorem sm_pin_beyond_fifty_counterexample:
  "length (sm_pinnedConnections sample_full_manager) = 50
   \<and> fst (sm_pinConnection 99 True sample_connection sample_full_manager) = True
   \<and> length (sm_pinnedConnections (snd (sm_pinConnection 99 True sample_connection sample_full_manager)))
       = 51"
proof -
  have p: "sm_pinnedConnections sample_full_manager = fifty_pins"
    by (simp add: sample_full_manager_def loaded_StorageManager_def)
  show ?thesis
    using sm_pin_succeeds(1,3)[OF sample_id, of 99 True sample_full_manager]
    by (simp add: p length_fifty_pins fifty_pins_key)
qed

subsection \<open>Daily reset\<close>

lemma savePinned_lastResetDate [simp]:
  "lastResetDate (local (savePinnedConnections ok w)) = lastResetDate (local w)"
  by (simp add: savePinnedConnections_def)

lemma savePinned_weavesData [simp]:
  "weavesData (local (savePinnedConnections ok w)) = weavesData (local w)"
  by (simp add: savePinnedConnections_def)

lemma cleanup_lastResetDate [simp]:
  "lastResetDate (local (cleanupPinnedConnections ok w)) = lastResetDate (local w)"
  by (simp add: cleanupPinnedConnections_def Let_def)

lemma cleanup_weavesData [simp]:
  "weavesData (local (cleanupPinnedConnections ok w)) = weavesData (local w)"
  by (simp add: cleanupPinnedConnections_def Let_def)

lemma cleanup_settings [simp]:
  "settings (cleanupPinnedConnections ok w) = settings w"
  by (simp add: cleanupPinnedConnections_def Let_def savePinnedConnections_def)




lemma sm_savePinned_local [simp]:
  "lastResetDate (sm_local (sm_savePinnedConnections ok m)) = lastResetDate (sm_local m)"
  "weavesData (sm_local (sm_savePinnedConnections ok m)) = weavesData (sm_local m)"
  "sm_settings (sm_savePinnedConnections ok m) = sm_settings m"
  by (simp_all add: sm_savePinnedConnections_def)

lemma sm_cleanup_local [simp]:
  "lastResetDate (sm_local (sm_cleanupPinnedConnections t ok m)) = lastResetDate (sm_local m)"
  "weavesData (sm_local (sm_cleanupPinnedConnections t ok m)) = weavesData (sm_local m)"
  "sm_settings (sm_cleanupPinnedConnections t ok m) = sm_settings m"
  by (simp_all add: sm_cleanupPinnedConnections_def Let_def split: prod.splits)







subsection \<open>Clearing the daily data\<close>

text \<open>
  C7. The \<open>CLEAR_DATA\<close> message is answered once, with \<open>{success: true}\<close>; afterwards
  the content store and the connection list are empty and the pinned ledger is the one
  from before, entry for entry.
\<close>

theorem clear_data_keeps_ledger:
  "fst (onMessage e sender CLEAR_DATA w) = [Outcome True]
   \<and> contentStore (snd (onMessage e sender CLEAR_DATA w)) = []
   \<and> connections (snd (onMessage e sender CLEAR_DATA w)) = []
   \<and> pinnedConnections (snd (onMessage e sender CLEAR_DATA w)) = pinnedConnections w"
  by (simp add: onMessage_def clearData_def Let_def saveData_def savePinnedConnections_def)

subsection \<open>Ingestion without the language model\<close>

lemma map_of_replaced:
  "k \<in> fst ` set m \<Longrightarrow> map_of (map (\<lambda>e. if fst e = k then (k, v) else e) m) k = Some v"
  by (induction m) auto

lemma map_of_appended:
  "k \<notin> fst ` set m \<Longrightarrow> map_of (m @ [(k, v)]) k = Some v"
proof -
  assume "k \<notin> fst ` set m"
  then have "map_of m k = None" by (simp add: map_of_eq_None_iff)
  then show ?thesis by (simp add: map_add_def)
qed

lemma map_get_map_set: "map_get k (map_set k v m) = Some v"
proof (cases "k \<in> fst ` set m")
  case True
  then show ?thesis by (simp add: map_get_def map_set_def map_has_def map_of_replaced)
next
  case False
  then show ?thesis
    using map_of_appended[OF False, of v]
    by (simp add: map_get_def map_set_def map_has_def del: map_of_append)
qed

lemma saveData_fields [simp]:
  "contentStore (saveData t ok w) = contentStore w"
  "connections (saveData t ok w) = connections w"
  "isInitialized (saveData t ok w) = isInitialized w"
  by (simp_all add: saveData_def savePinnedConnections_def)

lemma findConnections_uninitialized:
  "findConnections e False item existing = []"
  by (simp add: findConnections_def)

lemma contentUpdate_uninitialized:
  assumes "\<not> isInitialized w"
  shows "fst (contentUpdate e (Some t) m w) = Ingested 0 0"
    and "connections (snd (contentUpdate e (Some t) m w)) = connections w"
    and "map_get (numberToString (tab_id t) @ ''-'' @ numberToString (now e 0))
           (contentStore (snd (contentUpdate e (Some t) m w)))
         = Some \<lparr>item_id = numberToString (tab_id t) @ ''-'' @ numberToString (now e 0),
                 tabId = tab_id t, url = tab_url t, title = m_title m, content = m_content m,
                 domain = m_domain m, platform = m_platform m, contentType = m_contentType m,
                 item_timestamp = now e 1,
                 analysis = \<lparr>coreMessage = ''Content requires AI analysis'', perspective = ''unknown'',
                   themes = [], emotionalContext = ''neutral'', problems = [], solutions = [],
                   assumptions = [], implications = [], contentNature = ''unanalyzed'',
                   summary = take 300 (m_content m) @ ''...''\<rparr>\<rparr>"
  using assms
  by (simp_all add: contentUpdate_def contentItem_def Let_def findConnections_uninitialized
      analyzeContent_def map_get_map_set)

text \<open>
  C10. While \<open>isInitialized\<close> is false, \<open>findConnections\<close> returns the empty list; a
  \<open>CONTENT_UPDATE\<close> from a tab is then answered with \<open>connections: 0\<close> and
  \<open>highQuality: 0\<close>, the connection list stays as it was, and the content store holds
  the new item with the placeholder analysis.
\<close>

theorem uninitialized_ingests_without_connections:
  "\<not> isInitialized w \<longrightarrow>
     findConnections e (isInitialized w) item existing = []
     \<and> fst (onMessage e (Some t) (CONTENT_UPDATE m) w) = [Ingested 0 0]
     \<and> connections (snd (onMessage e (Some t) (CONTENT_UPDATE m) w)) = connections w
     \<and> map_get (numberToString (tab_id t) @ ''-'' @ numberToString (now e 0))
           (contentStore (snd (onMessage e (Some t) (CONTENT_UPDATE m) w)))
         = Some \<lparr>item_id = numberToString (tab_id t) @ ''-'' @ numberToString (now e 0),
                 tabId = tab_id t, url = tab_url t, title = m_title m, content = m_content m,
                 domain = m_domain m, platform = m_platform m, contentType = m_contentType m,
                 item_timestamp = now e 1,
                 analysis = \<lparr>coreMessage = ''Content requires AI analysis'', perspective = ''unknown'',
                   themes = [], emotionalContext = ''neutral'', problems = [], solutions = [],
                   assumptions = [], implications = [], contentNature = ''unanalyzed'',
                   summary = take 300 (m_content m) @ ''...''\<rparr>\<rparr>"
proof
  assume a: "\<not> isInitialized w"
  obtain r w' where c: "contentUpdate e (Some t) m w = (r, w')" by (cases "contentUpdate e (Some t) m w")
  show "findConnections e (isInitialized w) item existing = []
     \<and> fst (onMessage e (Some t) (CONTENT_UPDATE m) w) = [Ingested 0 0]
     \<and> connections (snd (onMessage e (Some t) (CONTENT_UPDATE m) w)) = connections w
     \<and> map_get (numberToString (tab_id t) @ ''-'' @ numberToString (now e 0))
           (contentStore (snd (onMessage e (Some t) (CONTENT_UPDATE m) w)))
         = Some \<lparr>item_id = numberToString (tab_id t) @ ''-'' @ numberToString (now e 0),
                 tabId = tab_id t, url = tab_url t, title = m_title m, content = m_content m,
                 domain = m_domain m, platform = m_platform m, contentType = m_contentType m,
                 item_timestamp = now e 1,
                 analysis = \<lparr>coreMessage = ''Content requires AI analysis'', perspective = ''unknown'',
                   themes = [], emotionalContext = ''neutral'', problems = [], solutions = [],
                   assumptions = [], implications = [], contentNature = ''unanalyzed'',
                   summary = take 300 (m_content m) @ ''...''\<rparr>\<rparr>"
    using a contentUpdate_uninitialized[OF a, where e=e and t=t and m=m] c
    by (simp add: onMessage_def findConnections_uninitialized)
qed

theorem uninitialized_ingests_without_connections_witness:
  "\<not> isInitialized new_WeavesAI
   \<and> fst (onMessage sample_env (Some sample_tab)
        (CONTENT_UPDATE sample_update) new_WeavesAI) = [Ingested 0 0]
   \<and> connections (snd (onMessage sample_env (Some sample_tab)
        (CONTENT_UPDATE sample_update) new_WeavesAI)) = []
   \<and> map fst (contentStore (snd (onMessage sample_env (Some sample_tab)
        (CONTENT_UPDATE sample_update) new_WeavesAI))) = [''3-1000'']"
proof -
  have h: "\<not> isInitialized new_WeavesAI" by (simp add: new_WeavesAI_def)
  have k: "map fst (contentStore (snd (onMessage sample_env (Some sample_tab)
        (CONTENT_UPDATE sample_update) new_WeavesAI))) = [''3-1000'']"
    by (simp add: onMessage_def contentUpdate_def contentItem_def Let_def new_WeavesAI_def
        sample_env_def sample_tab_def findConnections_def map_set_def map_has_def numberToString_def digits.simps
        digit_char_def split: prod.splits)
  have c: "connections new_WeavesAI = []" by (simp add: new_WeavesAI_def)
  show ?thesis
    using h k c uninitialized_ingests_without_connections[where w=new_WeavesAI and e=sample_env
        and existing="[]" and t=sample_tab and m=sample_update]
    by simp
qed

subsection \<open>Validation of the reply lines\<close>

lemma startsWith_iff: "startsWith s p = (\<exists>v. s = p @ v)"
  by (induction s p rule: startsWith.induct) auto

lemma string_includes_iff: "string_includes s p = (\<exists>u v. s = u @ p @ v)"
proof (induction s)
  case Nil
  then show ?case by auto
next
  case (Cons c cs)
  show ?case
  proof
    assume "string_includes (c # cs) p"
    then consider "startsWith (c # cs) p" | "string_includes cs p" by auto
    then show "\<exists>u v. c # cs = u @ p @ v"
    proof cases
      case 1
      then obtain v where "c # cs = p @ v" unfolding startsWith_iff by blast
      then have "c # cs = [] @ p @ v" by simp
      then show ?thesis by blast
    next
      case 2
      then obtain u v where "cs = u @ p @ v" using Cons.IH by blast
      then have "c # cs = (c # u) @ p @ v" by simp
      then show ?thesis by blast
    qed
  next
    assume "\<exists>u v. c # cs = u @ p @ v"
    then obtain u v where uv: "c # cs = u @ p @ v" by blast
    show "string_includes (c # cs) p"
    proof (cases u)
      case Nil
      then have "startsWith (c # cs) p" using uv unfolding startsWith_iff by auto
      then show ?thesis by simp
    next
      case (Cons a u')
      then have "cs = u' @ p @ v" using uv by simp
      then have "string_includes cs p" using Cons.IH by blast
      then show ?thesis by simp
    qed
  qed
qed

lemma connectLine_valid:
  assumes "connectLine existingAnalyses line = Some c"
  shows "0.7 \<le> cand_strength c \<and> cand_strength c \<le> 1 \<and> length (cand_reason c) > 50
         \<and> \<not> string_includes (toLowerCase (cand_reason c)) ''both mention''
         \<and> \<not> string_includes (toLowerCase (cand_reason c)) ''both discuss''
         \<and> \<not> string_includes (toLowerCase (cand_reason c)) ''both are about''
         \<and> startsWith line ''CONNECT:''"
  using assms
  by (auto simp: connectLine_def Let_def split: if_splits option.splits number.splits)

lemma in_set_map_filter:
  "(y \<in> set (List.map_filter f xs)) = (\<exists>x \<in> set xs. f x = Some y)"
  by (induction xs) (auto split: option.splits)

lemma findConnections_lines:
  assumes "c \<in> set (findConnections e initialized newContent existing)"
  shows "\<exists>line. connectLine (take 4 existing) line = Some c"
  using assms
  by (auto simp: findConnections_def Let_def in_set_map_filter split: if_splits option.splits)

lemma length_map_filter_le:
  "length (List.map_filter f xs) \<le> length (filter P xs)" if "\<And>x y. f x = Some y \<Longrightarrow> P x"
proof -
  have "length (filter (\<lambda>x. f x \<noteq> None) xs) \<le> length (filter P xs)"
    using that by (induction xs) auto
  then show ?thesis by (simp add: List.map_filter_def)
qed

lemma findConnections_bound:
  "length (findConnections e initialized newContent existing)
   \<le> (case model_reply e of None \<Rightarrow> 0
       | Some reply \<Rightarrow> length (filter (\<lambda>l. startsWith l ''CONNECT:'') (splitOn (CHR 0x0A) reply)))"
  using length_map_filter_le[of "connectLine (take 4 existing)" "\<lambda>l. startsWith l ''CONNECT:''"]
    connectLine_valid
  by (auto simp: findConnections_def Let_def split: option.splits)

lemma lower_sample_reason:
  "toLowerCase sample_reason = ''tidal forcing models explain the periodic load on the estuary sensors''"
  by (simp add: sample_reason_def toLowerCase_def lowerChar_def)

lemma parse_zero: "parseInt ''0'' = Some 0"
  by (simp add: parseInt_def isWhiteSpace_def hasSign_def isDigitOf_def digitValue_def
      lowerChar_def digitsValue_def)

lemma parse_nine_tenths: "parseFloat ''0.9'' = Num 0.9"
  by (simp add: parseFloat_def isWhiteSpace_def hasSign_def isDigitOf_def digitValue_def
      lowerChar_def digitsValue_def exponentFactor_def)

lemma sample_line_accepted:
  "connectLine [x] sample_line
   = Some \<lparr>contentId = item_id x, cand_strength = 0.9, cand_reason = sample_reason,
           cand_type = ''academic-insight'', cand_relationship = ''provides-framework''\<rparr>"
proof -
  have parts: "map trim (splitOn (CHR ''|'') (drop (length ''CONNECT:'') sample_line))
               = [''0'', ''0.9'', sample_reason]"
    by (simp add: sample_line_def sample_reason_def trim_def isWhiteSpace_def)
  have len: "length sample_reason = 69" by (simp add: sample_reason_def)
  have inc: "\<not> string_includes (toLowerCase sample_reason) ''both mention''"
    "\<not> string_includes (toLowerCase sample_reason) ''both discuss''"
    "\<not> string_includes (toLowerCase sample_reason) ''both are about''"
    unfolding lower_sample_reason by simp_all
  have sw: "startsWith sample_line ''CONNECT:''" by (simp add: sample_line_def)
  show ?thesis
    unfolding connectLine_def Let_def parts using sw
    by (simp add: parse_zero parse_nine_tenths len inc)
qed

lemma shallow_line_rejected: "connectLine [x] shallow_line = None"
proof -
  have parts: "map trim (splitOn (CHR ''|'') (drop (length ''CONNECT:'') shallow_line))
               = [''0'', ''0.9'', shallow_reason]"
    by (simp add: shallow_line_def shallow_reason_def sample_reason_def trim_def isWhiteSpace_def)
  have low: "toLowerCase shallow_reason = ''both discuss the sea and '' @ toLowerCase sample_reason"
    by (simp add: shallow_reason_def toLowerCase_def lowerChar_def)
  have inc: "string_includes (toLowerCase shallow_reason) ''both discuss''"
    unfolding low by simp
  show ?thesis
    unfolding connectLine_def Let_def parts
    by (simp add: parse_zero parse_nine_tenths inc)
qed

lemma climate_line_rejected: "connectLine [x] ''CONNECT: 0 | 0.9 | both discuss climate'' = None"
proof -
  have parts: "map trim (splitOn (CHR ''|'') (drop (length ''CONNECT:'') ''CONNECT: 0 | 0.9 | both discuss climate''))
               = [''0'', ''0.9'', ''both discuss climate'']"
    by (simp add: trim_def isWhiteSpace_def)
  show ?thesis
    unfolding connectLine_def Let_def parts
    by (simp add: parse_zero parse_nine_tenths)
qed

text \<open>
  C6. Every candidate that \<open>findConnections\<close> accepts comes from a reply line whose
  strength is in [0.7, 1.0] and whose reason is longer than 50 characters and, in lower
  case, holds none of the three shallow phrases; a line that violates one of these is
  not accepted. The line with the reason \<open>both discuss climate\<close> at strength 0.9 is
  rejected, and so is a long reason that holds \<open>Both Discuss\<close>, while the same line
  without the phrase is accepted.
\<close>

theorem candidates_validated:
  "(\<forall>c \<in> set (findConnections e initialized newContent existing).
      0.7 \<le> cand_strength c \<and> cand_strength c \<le> 1 \<and> length (cand_reason c) > 50
      \<and> \<not> (\<exists>u v. toLowerCase (cand_reason c) = u @ ''both mention'' @ v)
      \<and> \<not> (\<exists>u v. toLowerCase (cand_reason c) = u @ ''both discuss'' @ v)
      \<and> \<not> (\<exists>u v. toLowerCase (cand_reason c) = u @ ''both are about'' @ v))
   \<and> connectLine [x] ''CONNECT: 0 | 0.9 | both discuss climate'' = None
   \<and> connectLine [x] shallow_line = None
   \<and> connectLine [x] sample_line \<noteq> None"
proof -
  have "0.7 \<le> cand_strength c \<and> cand_strength c \<le> 1 \<and> length (cand_reason c) > 50
      \<and> \<not> (\<exists>u v. toLowerCase (cand_reason c) = u @ ''both mention'' @ v)
      \<and> \<not> (\<exists>u v. toLowerCase (cand_reason c) = u @ ''both discuss'' @ v)
      \<and> \<not> (\<exists>u v. toLowerCase (cand_reason c) = u @ ''both are about'' @ v)"
    if h: "c \<in> set (findConnections e initialized newContent existing)" for c
  proof -
    obtain line where "connectLine (take 4 existing) line = Some c"
      using findConnections_lines[OF h] by blast
    then show ?thesis
      using connectLine_valid[of "take 4 existing" line c]
      by (simp only: string_includes_iff) blast
  qed
  then show ?thesis
    using climate_line_rejected[of x] shallow_line_rejected[of x] sample_line_accepted[of x]
    by simp
qed

lemma sample_reply_lines:
  "splitOn (CHR 0x0A) (sample_line @ CHR 0x0A # sample_line @ CHR 0x0A # sample_line)
   = [sample_line, sample_line, sample_line]"
proof -
  have nl: "CHR 0x0A \<notin> set sample_line"
    by (simp add: sample_line_def sample_reason_def)
  have split1: "splitOn (CHR 0x0A) (s @ CHR 0x0A # r) = s # splitOn (CHR 0x0A) r"
    if "CHR 0x0A \<notin> set s" for s r
    using that by (induction s) (auto split: list.splits)
  have split0: "splitOn (CHR 0x0A) s = [s]" if "CHR 0x0A \<notin> set s" for s
    using that by (induction s) (auto split: list.splits)
  show ?thesis
    using split1[OF nl] split0[OF nl] by simp
qed

lemma three_lines:
  "findConnections three_lines_env True item [x]
   = replicate 3 \<lparr>contentId = item_id x, cand_strength = 0.9, cand_reason = sample_reason,
           cand_type = ''academic-insight'', cand_relationship = ''provides-framework''\<rparr>"
proof -
  have tr: "trim (sample_line @ CHR 0x0A # sample_line @ CHR 0x0A # sample_line) \<noteq> ''NO_CONNECTIONS''"
    by (simp add: trim_def sample_line_def sample_reason_def isWhiteSpace_def)
  show ?thesis
    unfolding findConnections_def Let_def
    using tr
    by (simp add: three_lines_env_def sample_env_def sample_reply_lines sample_line_accepted
        numeral_3_eq_3)
qed

theorem candidates_validated_witness:
  "findConnections three_lines_env True sample_item [sample_item]
     = replicate 3 \<lparr>contentId = ''2-3'', cand_strength = 0.9, cand_reason = sample_reason,
           cand_type = ''academic-insight'', cand_relationship = ''provides-framework''\<rparr>
   \<and> 0.7 \<le> cand_strength (hd (findConnections three_lines_env True sample_item [sample_item]))
   \<and> cand_strength (hd (findConnections three_lines_env True sample_item [sample_item])) \<le> 1
   \<and> 50 < length (cand_reason (hd (findConnections three_lines_env True sample_item [sample_item])))"
  using candidates_validated[of three_lines_env True sample_item "[sample_item]" sample_item]
    three_lines[of sample_item sample_item]
  by (simp add: sample_item_def numeral_3_eq_3)

subsection \<open>How many candidates one ingestion records\<close>

lemma contentUpdate_counts:
  fixes e t m w
  defines "item \<equiv> contentItem e t m (isInitialized w)"
  defines "found \<equiv> findConnections e (isInitialized w) item
                      (existingContents item (map_set (item_id item) item (contentStore w)))"
  shows "fst (contentUpdate e (Some t) m w)
           = Ingested (length found) (length (filter (\<lambda>c. cand_strength c \<ge> 0.75) found))"
    and "length (connections (snd (contentUpdate e (Some t) m w))) = length (connections w) + length found"
  unfolding item_def found_def
  by (simp_all add: contentUpdate_def Let_def)

lemma sample_existing:
  "existingContents (contentItem three_lines_env sample_tab sample_update True)
     (map_set (item_id (contentItem three_lines_env sample_tab sample_update True))
        (contentItem three_lines_env sample_tab sample_update True) (contentStore sample_initialized))
   = [sample_item]"
  by (simp add: existingContents_def contentItem_def three_lines_env_def sample_env_def sample_tab_def
      sample_initialized_def new_WeavesAI_def map_set_def map_has_def map_values_def js_sort_def
      numberToString_def digits.simps digit_char_def sample_item_def)

lemma sample_ingestion:
  "fst (contentUpdate three_lines_env (Some sample_tab) sample_update sample_initialized) = Ingested 3 3"
  "length (connections (snd (contentUpdate three_lines_env (Some sample_tab) sample_update sample_initialized))) = 3"
proof -
  have i: "isInitialized sample_initialized" "connections sample_initialized = []"
    by (simp_all add: sample_initialized_def new_WeavesAI_def)
  show "fst (contentUpdate three_lines_env (Some sample_tab) sample_update sample_initialized) = Ingested 3 3"
    unfolding contentUpdate_counts(1) using i(1) by (simp add: sample_existing three_lines)
  show "length (connections (snd (contentUpdate three_lines_env (Some sample_tab) sample_update sample_initialized))) = 3"
    unfolding contentUpdate_counts(2) using i by (simp add: sample_existing three_lines)
qed

lemma contentUpdate_connections:
  "connections (snd (contentUpdate e (Some t) m w))
   = (let item = contentItem e t m (isInitialized w);
          store = map_set (item_id item) item (contentStore w);
          found = findConnections e (isInitialized w) item (existingContents item store)
      in connections w @ map (\<lambda>(k, c). newConnection e store item k c) (enumerate 0 found))"
  by (simp add: contentUpdate_def Let_def)

lemma mixed_reply_lines:
  "splitOn (CHR 0x0A) (sample_line @ CHR 0x0A # shallow_line @ CHR 0x0A # sample_line)
   = [sample_line, shallow_line, sample_line]"
proof -
  have nl: "CHR 0x0A \<notin> set sample_line" "CHR 0x0A \<notin> set shallow_line"
    by (simp_all add: sample_line_def shallow_line_def shallow_reason_def sample_reason_def)
  have split1: "splitOn (CHR 0x0A) (s @ CHR 0x0A # r) = s # splitOn (CHR 0x0A) r"
    if "CHR 0x0A \<notin> set s" for s r
    using that by (induction s) (auto split: list.splits)
  have split0: "splitOn (CHR 0x0A) s = [s]" if "CHR 0x0A \<notin> set s" for s
    using that by (induction s) (auto split: list.splits)
  show ?thesis
    using split1[OF nl(1)] split1[OF nl(2)] split0[OF nl(1)] by simp
qed

lemma mixed_lines:
  "findConnections mixed_lines_env True item [x]
   = replicate 2 \<lparr>contentId = item_id x, cand_strength = 0.9, cand_reason = sample_reason,
           cand_type = ''academic-insight'', cand_relationship = ''provides-framework''\<rparr>"
proof -
  have tr: "trim (sample_line @ CHR 0x0A # shallow_line @ CHR 0x0A # sample_line) \<noteq> ''NO_CONNECTIONS''"
    by (simp add: trim_def sample_line_def sample_reason_def isWhiteSpace_def)
  show ?thesis
    unfolding findConnections_def Let_def
    using tr
    by (simp add: mixed_lines_env_def sample_env_def mixed_reply_lines sample_line_accepted
        shallow_line_rejected numeral_2_eq_2 List.map_filter_simps)
qed

lemma mixed_item:
  "contentItem mixed_lines_env sample_tab sample_update True
   = \<lparr>item_id = ''3-1000'', tabId = 3, url = ''u'', title = ''Tides'',
      content = ''The moon pulls the sea.'', domain = ''d'', platform = ''Web'',
      contentType = ''general'', item_timestamp = 1001,
      analysis = analyzeContent mixed_lines_env True ''The moon pulls the sea.''\<rparr>"
  by (simp add: contentItem_def mixed_lines_env_def sample_env_def sample_tab_def sample_update_def
      numberToString_def digits.simps digit_char_def)

lemma mixed_existing:
  "existingContents (contentItem mixed_lines_env sample_tab sample_update True)
     (map_set (item_id (contentItem mixed_lines_env sample_tab sample_update True))
        (contentItem mixed_lines_env sample_tab sample_update True) (contentStore sample_initialized))
   = [sample_item]"
  unfolding mixed_item
  by (simp add: existingContents_def
      sample_initialized_def new_WeavesAI_def map_set_def map_has_def map_values_def js_sort_def
      sample_item_def)

lemma mixed_reply_count:
  "(case model_reply mixed_lines_env of None \<Rightarrow> 0
    | Some reply \<Rightarrow> length (filter (\<lambda>l. startsWith l ''CONNECT:'') (splitOn (CHR 0x0A) reply))) = 3"
  by (simp add: mixed_lines_env_def sample_env_def mixed_reply_lines)
     (simp add: sample_line_def shallow_line_def)

text \<open>
  C5, as amended. One ingestion records every candidate that \<open>findConnections\<close> returns
  for the new item and its comparison set: the answer reports their number (and how many
  of them have strength 0.75 or more), and the connection list is extended by one
  connection for each of them, in their order. Their number is bounded only by the
  number of lines of the reply that start with \<open>CONNECT:\<close>; the limit of two is asked of
  the language model in the prompt and is not applied to its reply.
\<close>

theorem ingestion_records_found_candidates:
  "(let item = contentItem e t m (isInitialized w);
        store = map_set (item_id item) item (contentStore w);
        found = findConnections e (isInitialized w) item (existingContents item store)
    in fst (onMessage e (Some t) (CONTENT_UPDATE m) w)
         = [Ingested (length found) (length (filter (\<lambda>c. cand_strength c \<ge> 0.75) found))]
       \<and> connections (snd (onMessage e (Some t) (CONTENT_UPDATE m) w))
         = connections w @ map (\<lambda>(k, c). newConnection e store item k c) (enumerate 0 found)
       \<and> length found
         \<le> (case model_reply e of None \<Rightarrow> 0
            | Some reply \<Rightarrow> length (filter (\<lambda>l. startsWith l ''CONNECT:'') (splitOn (CHR 0x0A) reply))))"
proof -
  obtain r w' where c: "contentUpdate e (Some t) m w = (r, w')"
    by (cases "contentUpdate e (Some t) m w")
  have on: "onMessage e (Some t) (CONTENT_UPDATE m) w = ([r], w')"
    using c by (simp add: onMessage_def)
  have r: "r = fst (contentUpdate e (Some t) m w)" and w': "w' = snd (contentUpdate e (Some t) m w)"
    using c by simp_all
  show ?thesis
    unfolding on fst_conv snd_conv r w' contentUpdate_connections
    using findConnections_bound[of e "isInitialized w" "contentItem e t m (isInitialized w)"
        "existingContents (contentItem e t m (isInitialized w))
           (map_set (item_id (contentItem e t m (isInitialized w)))
              (contentItem e t m (isInitialized w)) (contentStore w))"]
    by (simp add: Let_def contentUpdate_def)
qed

theorem ingestion_records_found_candidates_witness:
  "fst (onMessage mixed_lines_env (Some sample_tab) (CONTENT_UPDATE sample_update) sample_initialized)
     = [Ingested 2 2]
   \<and> map (\<lambda>c. (fromId c, toId c, toTitle c, strength c, timestamp c))
       (connections (snd (onMessage mixed_lines_env (Some sample_tab) (CONTENT_UPDATE sample_update)
          sample_initialized)))
     = [(''3-1000'', ''2-3'', ''Estuary'', 0.9, 1002), (''3-1000'', ''2-3'', ''Estuary'', 0.9, 1003)]
   \<and> (case model_reply mixed_lines_env of None \<Rightarrow> 0
       | Some reply \<Rightarrow> length (filter (\<lambda>l. startsWith l ''CONNECT:'') (splitOn (CHR 0x0A) reply))) = 3"
proof -
  have i: "isInitialized sample_initialized" "connections sample_initialized = []"
    by (simp_all add: sample_initialized_def new_WeavesAI_def)
  note main = ingestion_records_found_candidates[where e=mixed_lines_env and t=sample_tab
      and m=sample_update and w=sample_initialized, unfolded Let_def, simplified i,
      unfolded mixed_existing mixed_lines]
  have a: "fst (onMessage mixed_lines_env (Some sample_tab) (CONTENT_UPDATE sample_update) sample_initialized)
     = [Ingested 2 2]"
    using main by simp
  have "connections (snd (onMessage mixed_lines_env (Some sample_tab) (CONTENT_UPDATE sample_update)
          sample_initialized))
        = map (\<lambda>(k, c). newConnection mixed_lines_env
                 (map_set (item_id (contentItem mixed_lines_env sample_tab sample_update True))
                    (contentItem mixed_lines_env sample_tab sample_update True)
                    (contentStore sample_initialized))
                 (contentItem mixed_lines_env sample_tab sample_update True) k c)
            (enumerate 0 (replicate 2 \<lparr>contentId = item_id sample_item, cand_strength = 0.9,
               cand_reason = sample_reason, cand_type = ''academic-insight'',
               cand_relationship = ''provides-framework''\<rparr>))"
    using main by simp
  then have b: "map (\<lambda>c. (fromId c, toId c, toTitle c, strength c, timestamp c))
       (connections (snd (onMessage mixed_lines_env (Some sample_tab) (CONTENT_UPDATE sample_update)
          sample_initialized)))
     = [(''3-1000'', ''2-3'', ''Estuary'', 0.9, 1002), (''3-1000'', ''2-3'', ''Estuary'', 0.9, 1003)]"
    unfolding mixed_item
    by (simp add: numeral_2_eq_2 newConnection_def Let_def sample_item_def sample_initialized_def
        new_WeavesAI_def map_set_def map_has_def map_get_def mixed_lines_env_def sample_env_def)
  show ?thesis
    using a b mixed_reply_count by (intro conjI)
qed

theorem three_candidates_recorded_counterexample:
  "fst (onMessage three_lines_env (Some sample_tab) (CONTENT_UPDATE sample_update) sample_initialized)
     = [Ingested 3 3]
   \<and> connections sample_initialized = []
   \<and> length (connections (snd (onMessage three_lines_env (Some sample_tab) (CONTENT_UPDATE sample_update)
        sample_initialized))) = 3"
proof -
  obtain r w' where c: "contentUpdate three_lines_env (Some sample_tab) sample_update sample_initialized = (r, w')"
    by (cases "contentUpdate three_lines_env (Some sample_tab) sample_update sample_initialized")
  show ?thesis
    using sample_ingestion c
    by (simp add: onMessage_def sample_initialized_def new_WeavesAI_def)
qed

subsection \<open>Messages that name no known connection\<close>

lemma unpin_connections [simp]:
  "connections (snd (unpinConnection ok k w)) = connections w"
  by (simp add: unpinConnection_def Let_def savePinnedConnections_def)

text \<open>
  C8, at a state with two connections and one pin and an id that names none of them:
  the first \<open>DELETE_CONNECTION\<close> branch and the second \<open>UNPIN_CONNECTION\<close> branch
  answer \<open>{success: true}\<close>.
\<close>

theorem unknown_id_answers:
  "fst (onMessage sample_env None (DELETE_CONNECTION ''9-9-9'') sample_weaves)
     = [Outcome True, Outcome False]
   \<and> fst (onMessage sample_env None (UNPIN_CONNECTION ''9-9-9'') sample_weaves)
     = [Outcome False, Outcome True]
   \<and> fst (onMessage sample_env None (PIN_CONNECTION ''9-9-9'') sample_weaves)
     = [Outcome False, Failed (ErrorMessage ''Connection not found'')]"
proof -
  have ids: "map generateConnectionId (connections sample_weaves) = [''1-5-2-3-7'', ''4-6-2-3-9'']"
    by (simp add: sample_weaves_def new_WeavesAI_def generateConnectionId_def sample_connection_def
        sample_connection2_def numberToString_def digits.simps digit_char_def)
  have conns: "connections sample_weaves = [sample_connection, sample_connection2]"
    by (simp add: sample_weaves_def new_WeavesAI_def)
  have g: "generateConnectionId sample_connection \<noteq> ''9-9-9''"
    "generateConnectionId sample_connection2 \<noteq> ''9-9-9''"
    using ids unfolding conns by auto
  have pins: "\<not> map_has ''9-9-9'' (pinnedConnections sample_weaves)"
    by (simp add: sample_weaves_def new_WeavesAI_def map_has_def)
  have d: "fst (onMessage sample_env None (DELETE_CONNECTION ''9-9-9'') sample_weaves)
     = [Outcome True, Outcome False]"
    by (simp add: onMessage_def deleteFirst_def deleteSecond_def Let_def case_prod_unfold conns g)
  have u: "fst (onMessage sample_env None (UNPIN_CONNECTION ''9-9-9'') sample_weaves)
     = [Outcome False, Outcome True]"
    using pins
    by (simp add: onMessage_def unpinFirst_def unpinSecond_def Let_def case_prod_unfold
        unpinConnection_def)
  have p: "fst (onMessage sample_env None (PIN_CONNECTION ''9-9-9'') sample_weaves)
     = [Outcome False, Failed (ErrorMessage ''Connection not found'')]"
    by (simp add: onMessage_def pinFirst_def pinSecond_def WeavesAI_pinConnection_def array_find_def
        case_prod_unfold conns g)
  show ?thesis using d u p by simp
qed

subsection \<open>Skipping a near-duplicate extraction\<close>

lemma trim_prefix: "\<exists>n. trim s = take n (dropWhile isWhiteSpace s)"
proof -
  let ?u = "dropWhile isWhiteSpace s"
  have "dropWhile isWhiteSpace (rev ?u) = drop (length (takeWhile isWhiteSpace (rev ?u))) (rev ?u)"
    by (rule dropWhile_eq_drop)
  then have "trim s = rev (drop (length (takeWhile isWhiteSpace (rev ?u))) (rev ?u))"
    by (simp add: trim_def)
  also have "\<dots> = take (length ?u - length (takeWhile isWhiteSpace (rev ?u))) ?u"
    by (simp add: rev_drop)
  finally show ?thesis by blast
qed

lemma hd_clean:
  assumes "m_content (extractContent p) \<noteq> []"
  shows "\<not> isWhiteSpace (hd (m_content (extractContent p)))"
proof -
  let ?u = "dropWhile isWhiteSpace (collapseWhitespace False (p_text p))"
  obtain n where n: "trim (collapseWhitespace False (p_text p)) = take n ?u"
    using trim_prefix by blast
  have c: "m_content (extractContent p) = take 8000 (take n ?u)"
    by (simp add: extractContent_def n)
  then have ne: "?u \<noteq> []" and "take 8000 (take n ?u) \<noteq> []" using assms by auto
  then have "hd (m_content (extractContent p)) = hd ?u"
    unfolding c by (metis hd_take take_eq_Nil2 not_gr_zero take_take min_def)
  moreover have "\<not> isWhiteSpace (hd ?u)" using ne by (rule hd_dropWhile)
  ultimately show ?thesis by simp
qed

lemma lowerChar_not_space: "\<not> isWhiteSpace c \<Longrightarrow> \<not> isWhiteSpace (lowerChar c)"
  by (auto simp: lowerChar_def isWhiteSpace_def split: option.splits if_splits)

lemma splitFields_token:
  "acc \<noteq> [] \<Longrightarrow> \<exists>tok \<in> set (splitFields sp acc s). tok \<noteq> []"
  by (induction s arbitrary: sp acc) auto

lemma splitWhitespace_token:
  assumes "s \<noteq> []" "\<not> isWhiteSpace (hd s)"
  shows "\<exists>tok \<in> set (splitWhitespace s). tok \<noteq> []"
proof -
  obtain c cs where s: "s = c # cs" using assms(1) by (cases s) auto
  then have "splitWhitespace s = splitFields False [c] cs"
    using assms(2) by (simp add: splitWhitespace_def)
  then show ?thesis using splitFields_token[of "[c]" False cs] by simp
qed

lemma splitWhitespace_empty: "splitWhitespace [] = [[]]"
  by (simp add: splitWhitespace_def)

lemma jaccard_first_extraction:
  assumes "m_content (extractContent p) \<noteq> []"
  shows "jaccard_spec (m_content (extractContent p)) [] \<le> 1 / 2"
proof -
  let ?c = "m_content (extractContent p)"
  let ?T = "set (splitWhitespace (toLowerCase ?c))"
  have "toLowerCase ?c \<noteq> []" using assms by (simp add: toLowerCase_def)
  moreover have "\<not> isWhiteSpace (hd (toLowerCase ?c))"
    using assms hd_clean[OF assms] by (simp add: toLowerCase_def hd_map lowerChar_not_space)
  ultimately obtain tok where tok: "tok \<in> ?T" "tok \<noteq> []"
    using splitWhitespace_token by blast
  have "{tok, []} \<subseteq> ?T \<union> {[]}" using tok by auto
  then have "card {tok, []} \<le> card (?T \<union> {[]})" by (intro card_mono) auto
  then have u: "2 \<le> card (?T \<union> {[]})" using tok(2) by simp
  have "card (?T \<inter> {[]}) \<le> card {[]::string}" by (intro card_mono) auto
  then have i: "card (?T \<inter> {[]}) \<le> 1" by simp
  have "real (card (?T \<inter> {[]})) / real (card (?T \<union> {[]})) \<le> 1 / 2"
    using u i by (simp add: field_simps)
  then show ?thesis
    by (simp add: jaccard_spec_def toLowerCase_def splitWhitespace_empty)
qed

lemma contentSimilarity_jaccard:
  "a \<noteq> [] \<Longrightarrow> b \<noteq> [] \<Longrightarrow> contentSimilarity a b = jaccard_spec a b"
proof -
  have "Set.filter (\<lambda>x. x \<in> B) A = A \<inter> B" for A B :: "string set" by auto
  then show "a \<noteq> [] \<Longrightarrow> b \<noteq> [] \<Longrightarrow> contentSimilarity a b = jaccard_spec a b"
    by (simp add: contentSimilarity_def jaccard_spec_def Let_def)
qed

lemma duplicate_skipped:
  assumes "jaccard_spec (m_content (extractContent p)) lastContent \<ge> 0.8"
  shows "extractAndSend lastContent p = (lastContent, None)"
proof (cases "length (m_content (extractContent p)) < 100")
  case True
  then show ?thesis by (simp add: extractAndSend_def Let_def)
next
  case False
  then have ne: "m_content (extractContent p) \<noteq> []" by auto
  have last: "lastContent \<noteq> []"
  proof
    assume "lastContent = []"
    then have "jaccard_spec (m_content (extractContent p)) lastContent \<le> 1 / 2"
      using jaccard_first_extraction[OF ne] by simp
    then show False using assms by simp
  qed
  have "contentSimilarity (m_content (extractContent p)) lastContent \<ge> 0.8"
    using assms contentSimilarity_jaccard[OF ne last] by simp
  then show ?thesis using False by (simp add: extractAndSend_def Let_def)
qed

text \<open>
  C9. When the Jaccard index of the token sets of the newly extracted content and of the
  last-sent content is at least 0.8, \<open>extractAndSend\<close> sends no message and keeps
  \<open>lastContent\<close>; the service worker is not reached, so its whole state, the content
  store included, is as before.
\<close>

theorem near_duplicate_skipped:
  "jaccard_spec (m_content (extractContent p)) lastContent \<ge> 0.8 \<longrightarrow>
     extractAndSend lastContent p = (lastContent, None)
     \<and> extraction e t p (lastContent, w) = (lastContent, w)"
  using duplicate_skipped[of p lastContent] by (simp add: extraction_def)

lemma sample_content:
  "m_content (extractContent sample_page) = ''Spring tides rise when sun and moon pull along one line while neap tides follow seven days later as that pull is split across two lines''"
  by (simp add: extractContent_def sample_page_def trim_def isWhiteSpace_def)

lemma sample_tokens_new:
  "splitWhitespace (toLowerCase (m_content (extractContent sample_page)))
   = [''spring'', ''tides'', ''rise'', ''when'', ''sun'', ''and'', ''moon'', ''pull'', ''along'', ''one'',
      ''line'', ''while'', ''neap'', ''tides'', ''follow'', ''seven'', ''days'', ''later'', ''as'', ''that'',
      ''pull'', ''is'', ''split'', ''across'', ''two'', ''lines'']"
  unfolding sample_content
  by (simp add: splitWhitespace_def toLowerCase_def lowerChar_def isWhiteSpace_def)

lemma sample_tokens_last:
  "splitWhitespace (toLowerCase sample_last)
   = [''spring'', ''tides'', ''rise'', ''when'', ''sun'', ''and'', ''moon'', ''pull'', ''along'', ''one'',
      ''line'', ''while'', ''neap'', ''tides'', ''follow'', ''eight'', ''days'', ''later'', ''as'', ''that'',
      ''pull'', ''is'', ''split'', ''across'', ''two'', ''lines'']"
  by (simp add: sample_last_def splitWhitespace_def toLowerCase_def lowerChar_def isWhiteSpace_def)

lemma sample_jaccard: "jaccard_spec (m_content (extractContent sample_page)) sample_last = 23 / 25"
  unfolding jaccard_spec_def sample_tokens_new sample_tokens_last
  by (simp add: card_insert_if)

theorem near_duplicate_skipped_witness:
  "100 \<le> length (m_content (extractContent sample_page))
   \<and> jaccard_spec (m_content (extractContent sample_page)) sample_last \<ge> 0.8
   \<and> extractAndSend sample_last sample_page = (sample_last, None)
   \<and> extraction sample_env sample_tab sample_page (sample_last, new_WeavesAI)
       = (sample_last, new_WeavesAI)"
proof -
  have l: "100 \<le> length (m_content (extractContent sample_page))"
    unfolding sample_content by simp
  have h: "jaccard_spec (m_content (extractContent sample_page)) sample_last \<ge> 0.8"
    unfolding sample_jaccard by simp
  show ?thesis
    using l h near_duplicate_skipped[of sample_page sample_last sample_env sample_tab new_WeavesAI]
    by blast
qed

end
